theory Spec2Isabelle
  imports Main "HOL-Library.Word" "HOL-Library.Monad_Syntax"
begin

section \<open>JavaScript strings and values\<close>

text \<open>
  A JavaScript string is a sequence of 16-bit code units. \<open>js\<close> turns an ASCII literal
  into such a sequence. A value as \<open>JSON.parse\<close> builds it is a \<open>jsval\<close>; \<open>JUndefined\<close>
  is what reading an absent property gives. A number keeps the literal it was read from:
  what the engine's double arithmetic makes of it is a parameter (see \<open>engine\<close> below).
\<close>

type_synonym jschar = "16 word"
type_synonym jsstring = "jschar list"

definition js :: "string \<Rightarrow> jsstring" where
  "js s = map of_char s"

datatype jsval =
    JUndefined
  | JNull
  | JBool bool
  | JNum jsstring
  | JStr jsstring
  | JArr "jsval list"
  | JObj "(jsstring \<times> jsval) list"

section \<open>JSON.parse\<close>

text \<open>
  The grammar of ECMA-404 as \<open>JSON.parse\<close> applies it to a string: a lexer to tokens,
  then a push-down machine over the tokens. \<open>None\<close> is the SyntaxError.
\<close>

datatype token =
    TLBrace | TRBrace | TLBrack | TRBrack | TColon | TComma
  | TString jsstring | TNumber jsstring | TTrue | TFalse | TNull

definition is_ws :: "jschar \<Rightarrow> bool" where
  "is_ws c = (c = 0x20 \<or> c = 0x09 \<or> c = 0x0A \<or> c = 0x0D)"

definition is_digit :: "jschar \<Rightarrow> bool" where
  "is_digit c = (0x30 \<le> c \<and> c \<le> 0x39)"

definition hexval :: "jschar \<Rightarrow> nat option" where
  "hexval c =
     (if 0x30 \<le> c \<and> c \<le> 0x39 then Some (unat c - 0x30)
      else if 0x61 \<le> c \<and> c \<le> 0x66 then Some (unat c - 0x61 + 10)
      else if 0x41 \<le> c \<and> c \<le> 0x46 then Some (unat c - 0x41 + 10)
      else None)"

definition hex4 :: "jschar \<Rightarrow> jschar \<Rightarrow> jschar \<Rightarrow> jschar \<Rightarrow> jschar option" where
  "hex4 a b c d =
     (case (hexval a, hexval b, hexval c, hexval d) of
        (Some p, Some q, Some r, Some s) \<Rightarrow> Some (of_nat (((p * 16 + q) * 16 + r) * 16 + s))
      | _ \<Rightarrow> None)"

text \<open>The single-character escapes: \<open>\" \\ \/ \b \f \n \r \t\<close>.\<close>

definition unescape :: "jschar \<Rightarrow> jschar option" where
  "unescape e =
     (if e = 0x22 then Some 0x22
      else if e = 0x5C then Some 0x5C
      else if e = 0x2F then Some 0x2F
      else if e = 0x62 then Some 0x08
      else if e = 0x66 then Some 0x0C
      else if e = 0x6E then Some 0x0A
      else if e = 0x72 then Some 0x0D
      else if e = 0x74 then Some 0x09
      else None)"

text \<open>
  \<open>lex_string acc cs\<close> reads a string body after its opening quote: the characters read so
  far are \<open>acc\<close> (reversed); the result is the string and what follows the closing quote.
\<close>

fun lex_string :: "jsstring \<Rightarrow> jsstring \<Rightarrow> (jsstring \<times> jsstring) option" where
  "lex_string acc [] = None"
| "lex_string acc (c # cs) =
     (if c = 0x22 then Some (rev acc, cs)
      else if c = 0x5C then
        (case cs of
           [] \<Rightarrow> None
         | e # cs1 \<Rightarrow>
             if e = 0x75 then
               (case cs1 of
                  h1 # h2 # h3 # h4 # cs2 \<Rightarrow>
                    (case hex4 h1 h2 h3 h4 of
                       None \<Rightarrow> None
                     | Some u \<Rightarrow> lex_string (u # acc) cs2)
                | _ \<Rightarrow> None)
             else
               (case unescape e of
                  None \<Rightarrow> None
                | Some d \<Rightarrow> lex_string (d # acc) cs1))
      else if c < 0x20 then None
      else lex_string (c # acc) cs)"

text \<open>
  A number token is the longest run of number characters; \<open>number_ok\<close> checks it against
  \<open>-? (0 | [1-9][0-9]*) (. [0-9]+)? ([eE] [+-]? [0-9]+)?\<close>.
\<close>

definition is_numchar :: "jschar \<Rightarrow> bool" where
  "is_numchar c = (is_digit c \<or> c = 0x2D \<or> c = 0x2B \<or> c = 0x2E \<or> c = 0x65 \<or> c = 0x45)"

definition exp_ok :: "jsstring \<Rightarrow> bool" where
  "exp_ok r =
     (case r of
        [] \<Rightarrow> True
      | e # r1 \<Rightarrow>
          (e = 0x65 \<or> e = 0x45) \<and>
          (let r2 = (case r1 of [] \<Rightarrow> [] | s # t \<Rightarrow> if s = 0x2B \<or> s = 0x2D then t else r1)
           in r2 \<noteq> [] \<and> list_all is_digit r2))"

definition frac_ok :: "jsstring \<Rightarrow> bool" where
  "frac_ok r =
     (case r of
        [] \<Rightarrow> True
      | p # r1 \<Rightarrow>
          if p = 0x2E then
            (case r1 of [] \<Rightarrow> False | d # _ \<Rightarrow> is_digit d \<and> exp_ok (dropWhile is_digit r1))
          else exp_ok r)"

definition number_ok :: "jsstring \<Rightarrow> bool" where
  "number_ok s =
     (let s1 = (case s of [] \<Rightarrow> [] | m # t \<Rightarrow> if m = 0x2D then t else s)
      in case s1 of
           [] \<Rightarrow> False
         | d # r \<Rightarrow>
             if d = 0x30 then frac_ok r
             else if is_digit d then frac_ok (dropWhile is_digit r)
             else False)"

lemma lex_string_shorter:
  "lex_string acc cs = Some (s, r) \<Longrightarrow> length r < length cs"
proof (induction acc cs arbitrary: s r rule: lex_string.induct)
  case (1 acc)
  then show ?case by simp
next
  case (2 acc c cs)
  then show ?case
    by (fastforce split: if_splits list.splits option.splits)
qed

function lex :: "jsstring \<Rightarrow> token list option" where
  "lex [] = Some []"
| "lex (c # cs) =
     (if is_ws c then lex cs
      else if c = 0x7B then map_option (Cons TLBrace) (lex cs)
      else if c = 0x7D then map_option (Cons TRBrace) (lex cs)
      else if c = 0x5B then map_option (Cons TLBrack) (lex cs)
      else if c = 0x5D then map_option (Cons TRBrack) (lex cs)
      else if c = 0x3A then map_option (Cons TColon) (lex cs)
      else if c = 0x2C then map_option (Cons TComma) (lex cs)
      else if c = 0x22 then
        (case lex_string [] cs of
           None \<Rightarrow> None
         | Some (s, r) \<Rightarrow> map_option (Cons (TString s)) (lex r))
      else if c = 0x2D \<or> is_digit c then
        (if number_ok (c # takeWhile is_numchar cs)
         then map_option (Cons (TNumber (c # takeWhile is_numchar cs)))
                (lex (dropWhile is_numchar cs))
         else None)
      else if c = 0x74 \<and> take 3 cs = [0x72, 0x75, 0x65] then
        map_option (Cons TTrue) (lex (drop 3 cs))
      else if c = 0x66 \<and> take 4 cs = [0x61, 0x6C, 0x73, 0x65] then
        map_option (Cons TFalse) (lex (drop 4 cs))
      else if c = 0x6E \<and> take 3 cs = [0x75, 0x6C, 0x6C] then
        map_option (Cons TNull) (lex (drop 3 cs))
      else None)"
  by pat_completeness auto
termination
proof (relation "measure length", goal_cases)
  case 1
  then show ?case by simp
next
  case (9 c cs x2 x y)
  then show ?case using lex_string_shorter [of "[]" cs x y] by simp
next
  case (10 c cs)
  then show ?case by (simp add: le_imp_less_Suc length_dropWhile_le)
qed simp_all

text \<open>
  The machine: \<open>frame\<close> is a container being read (an array with its elements so far,
  reversed; an object waiting for a key, or for the value of a key), \<open>phase\<close> what may
  come next. A repeated key keeps its place and takes the later value.
\<close>

datatype frame =
    FArr "jsval list"
  | FKey "(jsstring \<times> jsval) list"
  | FVal "(jsstring \<times> jsval) list" jsstring

datatype phase = PValue | PValueOrEnd | PKeyOrEnd | PKey | PColon | PAfter | PDone jsval

fun obj_put :: "jsstring \<Rightarrow> jsval \<Rightarrow> (jsstring \<times> jsval) list \<Rightarrow> (jsstring \<times> jsval) list" where
  "obj_put k v [] = [(k, v)]"
| "obj_put k v ((k1, v1) # ms) =
     (if k1 = k then (k, v) # ms else (k1, v1) # obj_put k v ms)"

fun deliver :: "jsval \<Rightarrow> frame list \<Rightarrow> (phase \<times> frame list) option" where
  "deliver v [] = Some (PDone v, [])"
| "deliver v (FArr es # st) = Some (PAfter, FArr (v # es) # st)"
| "deliver v (FVal ms k # st) = Some (PAfter, FKey (obj_put k v ms) # st)"
| "deliver v (FKey ms # st) = None"

fun close_array :: "frame list \<Rightarrow> (phase \<times> frame list) option" where
  "close_array (FArr es # st) = deliver (JArr (rev es)) st"
| "close_array _ = None"

fun close_object :: "frame list \<Rightarrow> (phase \<times> frame list) option" where
  "close_object (FKey ms # st) = deliver (JObj ms) st"
| "close_object _ = None"

fun take_key :: "jsstring \<Rightarrow> frame list \<Rightarrow> (phase \<times> frame list) option" where
  "take_key k (FKey ms # st) = Some (PColon, FVal ms k # st)"
| "take_key k _ = None"

fun start_value :: "frame list \<Rightarrow> token \<Rightarrow> (phase \<times> frame list) option" where
  "start_value st TLBrack = Some (PValueOrEnd, FArr [] # st)"
| "start_value st TLBrace = Some (PKeyOrEnd, FKey [] # st)"
| "start_value st (TString s) = deliver (JStr s) st"
| "start_value st (TNumber n) = deliver (JNum n) st"
| "start_value st TTrue = deliver (JBool True) st"
| "start_value st TFalse = deliver (JBool False) st"
| "start_value st TNull = deliver JNull st"
| "start_value st _ = None"

fun after_value :: "frame list \<Rightarrow> token \<Rightarrow> (phase \<times> frame list) option" where
  "after_value (FArr es # st) TComma = Some (PValue, FArr es # st)"
| "after_value (FKey ms # st) TComma = Some (PKey, FKey ms # st)"
| "after_value st TRBrack = close_array st"
| "after_value st TRBrace = close_object st"
| "after_value _ _ = None"

fun pstep :: "phase \<Rightarrow> frame list \<Rightarrow> token \<Rightarrow> (phase \<times> frame list) option" where
  "pstep PValue st t = start_value st t"
| "pstep PValueOrEnd st t = (if t = TRBrack then close_array st else start_value st t)"
| "pstep PKeyOrEnd st t =
     (case t of TRBrace \<Rightarrow> close_object st | TString k \<Rightarrow> take_key k st | _ \<Rightarrow> None)"
| "pstep PKey st t = (case t of TString k \<Rightarrow> take_key k st | _ \<Rightarrow> None)"
| "pstep PColon st t = (if t = TColon then Some (PValue, st) else None)"
| "pstep PAfter st t = after_value st t"
| "pstep (PDone v) st t = None"

fun prun :: "phase \<Rightarrow> frame list \<Rightarrow> token list \<Rightarrow> jsval option" where
  "prun p st [] = (case p of PDone v \<Rightarrow> Some v | _ \<Rightarrow> None)"
| "prun p st (t # ts) =
     (case pstep p st t of None \<Rightarrow> None | Some (p1, st1) \<Rightarrow> prun p1 st1 ts)"

definition JSON_parse :: "jsstring \<Rightarrow> jsval option" where
  "JSON_parse text = (case lex text of None \<Rightarrow> None | Some ts \<Rightarrow> prun PValue [] ts)"

section \<open>Dates\<close>

text \<open>
  A \<open>Date\<close> holds a time value: milliseconds since 1970-01-01T00:00:00Z, or NaN for an
  Invalid Date (\<open>None\<close>). The calendar functions are those of ECMA-262 (Day,
  TimeWithinDay, DayFromYear, InLeapYear, YearFromTime, MonthFromTime, DateFromTime,
  MakeDay, MakeTime, MakeDate, TimeClip), on days and milliseconds as integers: every
  time value is an integer below \<open>2 ^ 53\<close>, where the engine's double arithmetic is exact.
\<close>

type_synonym Date = "int option"

definition TimeClip :: "int \<Rightarrow> Date" where
  "TimeClip t = (if \<bar>t\<bar> \<le> 8640000000000000 then Some t else None)"

definition Day :: "int \<Rightarrow> int" where
  "Day t = t div 86400000"

definition TimeWithinDay :: "int \<Rightarrow> int" where
  "TimeWithinDay t = t mod 86400000"

definition DayFromYear :: "int \<Rightarrow> int" where
  "DayFromYear y = 365 * (y - 1970) + (y - 1969) div 4 - (y - 1901) div 100 + (y - 1601) div 400"

definition InLeapYear :: "int \<Rightarrow> int" where
  "InLeapYear y =
     (if y mod 4 \<noteq> 0 then 0 else if y mod 100 \<noteq> 0 then 1 else if y mod 400 \<noteq> 0 then 0 else 1)"

lemma div_succ:
  fixes a k :: int
  assumes "0 < k"
  shows "(a + 1) div k = a div k + (if (a + 1) mod k = 0 then 1 else 0)"
proof (cases "(a + 1) mod k = 0")
  case True
  then obtain m where m: "a + 1 = k * m" by (auto simp: mod_eq_0_iff_dvd)
  then have a: "a = k * (m - 1) + (k - 1)" by (simp add: algebra_simps)
  have "a div k = m - 1"
    by (subst a) (use assms in \<open>simp add: div_pos_pos_trivial\<close>)
  moreover have "(a + 1) div k = m" using m assms by simp
  ultimately show ?thesis using True by simp
next
  case False
  define r where "r = a mod k"
  have r: "0 \<le> r" "r < k" using assms by (simp_all add: r_def)
  have "r + 1 \<noteq> k"
  proof
    assume "r + 1 = k"
    have "(a + 1) mod k = (a mod k + 1) mod k" by (simp add: mod_add_left_eq)
    also have "\<dots> = k mod k" using \<open>r + 1 = k\<close> by (simp add: r_def)
    finally have "(a + 1) mod k = 0" by simp
    with False show False by simp
  qed
  with r have r1: "0 \<le> r + 1" "r + 1 < k" by simp_all
  have e: "a + 1 = k * (a div k) + (r + 1)" unfolding r_def by simp
  have "(k * (a div k) + (r + 1)) div k = a div k"
    using r1 assms by (simp add: div_pos_pos_trivial)
  then have "(a + 1) div k = a div k" by (simp only: e [symmetric])
  then show ?thesis using False by simp
qed

lemma mod_shift_4: "((y::int) - 1969 + 1) mod 4 = 0 \<longleftrightarrow> y mod 4 = 0"
proof -
  have "y - 1969 + 1 = y + 4 * (- 492)" by simp
  then show ?thesis by (simp only: mod_mult_self2)
qed

lemma mod_shift_100: "((y::int) - 1901 + 1) mod 100 = 0 \<longleftrightarrow> y mod 100 = 0"
proof -
  have "y - 1901 + 1 = y + 100 * (- 19)" by simp
  then show ?thesis by (simp only: mod_mult_self2)
qed

lemma mod_shift_400: "((y::int) - 1601 + 1) mod 400 = 0 \<longleftrightarrow> y mod 400 = 0"
proof -
  have "y - 1601 + 1 = y + 400 * (- 4)" by simp
  then show ?thesis by (simp only: mod_mult_self2)
qed

lemma mod_100_4: "(y::int) mod 100 = 0 \<Longrightarrow> y mod 4 = 0"
proof -
  assume "y mod 100 = 0"
  then have "100 dvd y" by (simp add: mod_eq_0_iff_dvd)
  moreover have "(4::int) dvd 100" by simp
  ultimately have "4 dvd y" by (rule dvd_trans [rotated])
  then show ?thesis by (simp add: mod_eq_0_iff_dvd)
qed

lemma mod_400_100: "(y::int) mod 400 = 0 \<Longrightarrow> y mod 100 = 0"
proof -
  assume "y mod 400 = 0"
  then have "400 dvd y" by (simp add: mod_eq_0_iff_dvd)
  moreover have "(100::int) dvd 400" by simp
  ultimately have "100 dvd y" by (rule dvd_trans [rotated])
  then show ?thesis by (simp add: mod_eq_0_iff_dvd)
qed

lemma DayFromYear_step:
  "DayFromYear (y + 1) = DayFromYear y + 365 + InLeapYear y"
proof -
  have d4: "(y + 1 - 1969) div 4 = (y - 1969) div 4 + (if y mod 4 = 0 then 1 else 0)"
    using div_succ [of 4 "y - 1969"] mod_shift_4 [of y] by (simp add: algebra_simps)
  have d100: "(y + 1 - 1901) div 100 = (y - 1901) div 100 + (if y mod 100 = 0 then 1 else 0)"
    using div_succ [of 100 "y - 1901"] mod_shift_100 [of y] by (simp add: algebra_simps)
  have d400: "(y + 1 - 1601) div 400 = (y - 1601) div 400 + (if y mod 400 = 0 then 1 else 0)"
    using div_succ [of 400 "y - 1601"] mod_shift_400 [of y] by (simp add: algebra_simps)
  have "DayFromYear (y + 1) =
          365 * (y + 1 - 1970) + (y + 1 - 1969) div 4 - (y + 1 - 1901) div 100
          + (y + 1 - 1601) div 400"
    by (simp only: DayFromYear_def)
  also have "\<dots> = DayFromYear y + 365 + (if y mod 4 = 0 then 1 else 0)
                    - (if y mod 100 = 0 then 1 else 0) + (if y mod 400 = 0 then 1 else 0)"
    by (simp only: d4 d100 d400 DayFromYear_def) simp
  also have "\<dots> = DayFromYear y + 365 + InLeapYear y"
    using mod_100_4 [of y] mod_400_100 [of y] by (auto simp: InLeapYear_def)
  finally show ?thesis .
qed

text \<open>
  YearFromTime is the largest year that starts on or before the day: found by counting up
  from a year that is not too late.
\<close>

function year_search :: "int \<Rightarrow> int \<Rightarrow> int" where
  "year_search d y = (if DayFromYear (y + 1) \<le> d then year_search d (y + 1) else y)"
  by pat_completeness auto
termination
proof (relation "measure (\<lambda>(d, y). nat (d - DayFromYear (y + 1) + 1))", goal_cases)
  case 1
  then show ?case by simp
next
  case (2 d y)
  have "DayFromYear (y + 1 + 1) > DayFromYear (y + 1)"
    using DayFromYear_step [of "y + 1"] by (simp add: InLeapYear_def)
  with 2 show ?case by simp
qed

definition YearFromDay :: "int \<Rightarrow> int" where
  "YearFromDay d = year_search d (1970 + (if 0 \<le> d then d div 366 else d div 365))"

text \<open>The first day of month \<open>m\<close> (0 is January) within a year; \<open>l\<close> is 1 in a leap year.\<close>

definition monthStart :: "int \<Rightarrow> int \<Rightarrow> int" where
  "monthStart m l =
     (if m \<le> 0 then 0 else if m = 1 then 31 else if m = 2 then 59 + l
      else if m = 3 then 90 + l else if m = 4 then 120 + l else if m = 5 then 151 + l
      else if m = 6 then 181 + l else if m = 7 then 212 + l else if m = 8 then 243 + l
      else if m = 9 then 273 + l else if m = 10 then 304 + l else if m = 11 then 334 + l
      else 365 + l)"

definition MonthFromDay :: "int \<Rightarrow> int \<Rightarrow> int" where
  "MonthFromDay n l =
     (if n < 31 then 0 else if n < 59 + l then 1 else if n < 90 + l then 2
      else if n < 120 + l then 3 else if n < 151 + l then 4 else if n < 181 + l then 5
      else if n < 212 + l then 6 else if n < 243 + l then 7 else if n < 273 + l then 8
      else if n < 304 + l then 9 else if n < 334 + l then 10 else 11)"

definition MakeDay :: "int \<Rightarrow> int \<Rightarrow> int \<Rightarrow> int" where
  "MakeDay y m dt = DayFromYear y + monthStart m (InLeapYear y) + dt - 1"

definition MakeTime :: "int \<Rightarrow> int \<Rightarrow> int \<Rightarrow> int \<Rightarrow> int" where
  "MakeTime h mi s ms = h * 3600000 + mi * 60000 + s * 1000 + ms"

definition MakeDate :: "int \<Rightarrow> int \<Rightarrow> int" where
  "MakeDate day time = day * 86400000 + time"

subsection \<open>toISOString\<close>

text \<open>\<open>dec w n\<close> is \<open>n\<close> in \<open>w\<close> decimal digits, zero-padded.\<close>

fun dec :: "nat \<Rightarrow> nat \<Rightarrow> jsstring" where
  "dec 0 n = []"
| "dec (Suc w) n = (0x30 + of_nat (n div 10 ^ w)) # dec w (n mod 10 ^ w)"

definition year_str :: "int \<Rightarrow> jsstring" where
  "year_str y =
     (if 0 \<le> y \<and> y \<le> 9999 then dec 4 (nat y)
      else (if y < 0 then 0x2D else 0x2B) # dec 6 (nat \<bar>y\<bar>))"

text \<open>
  \<open>YYYY-MM-DDTHH:mm:ss.sssZ\<close>, the year as \<open>\<plusminus>YYYYYY\<close> outside 0 to 9999; on an
  Invalid Date the method throws a RangeError (\<open>None\<close>).
\<close>

definition toISOString :: "Date \<Rightarrow> jsstring option" where
  "toISOString d =
     (case d of
        None \<Rightarrow> None
      | Some t \<Rightarrow>
          (let dy = Day t; tw = TimeWithinDay t;
               y = YearFromDay dy; l = InLeapYear y;
               n = dy - DayFromYear y;
               m = MonthFromDay n l;
               dt = n - monthStart m l + 1
           in Some (year_str y @ [0x2D] @ dec 2 (nat (m + 1)) @ [0x2D] @ dec 2 (nat dt)
                    @ [0x54] @ dec 2 (nat (tw div 3600000))
                    @ [0x3A] @ dec 2 (nat (tw div 60000 mod 60))
                    @ [0x3A] @ dec 2 (nat (tw div 1000 mod 60))
                    @ [0x2E] @ dec 3 (nat (tw mod 1000)) @ [0x5A])))"

subsection \<open>Date.parse\<close>

text \<open>
  \<open>parseISO\<close> reads the complete date-time form of the Date Time String Format,
  \<open>YYYY-MM-DDTHH:mm:ss.sss\<close> followed by \<open>Z\<close> or an offset \<open>\<plusminus>HH:mm\<close>, with every element
  in range. What \<open>Date.parse\<close> makes of any other string (the shorter forms, which need the
  device's time zone, and the formats an engine accepts on its own account) is left to
  the engine.
\<close>

fun take_digits :: "nat \<Rightarrow> nat \<Rightarrow> jsstring \<Rightarrow> (nat \<times> jsstring) option" where
  "take_digits 0 acc cs = Some (acc, cs)"
| "take_digits (Suc w) acc [] = None"
| "take_digits (Suc w) acc (c # cs) =
     (if is_digit c then take_digits w (acc * 10 + (unat c - 48)) cs else None)"

fun expect :: "jschar \<Rightarrow> jsstring \<Rightarrow> jsstring option" where
  "expect c [] = None"
| "expect c (x # r) = (if x = c then Some r else None)"

fun parse_year :: "jsstring \<Rightarrow> (int \<times> jsstring) option" where
  "parse_year [] = None"
| "parse_year (c # r) =
     (if c = 0x2B \<or> c = 0x2D then
        (case take_digits 6 0 r of
           None \<Rightarrow> None
         | Some (n, r1) \<Rightarrow>
             if c = 0x2D then (if n = 0 then None else Some (- int n, r1))
             else Some (int n, r1))
      else
        (case take_digits 4 0 (c # r) of
           None \<Rightarrow> None
         | Some (n, r1) \<Rightarrow> Some (int n, r1)))"

fun parse_offset :: "jsstring \<Rightarrow> int option" where
  "parse_offset [] = None"
| "parse_offset (c # r) =
     (if c = 0x5A then (if r = [] then Some 0 else None)
      else if c = 0x2B \<or> c = 0x2D then
        do {
          (h, r1) \<leftarrow> take_digits 2 0 r;
          r2 \<leftarrow> expect 0x3A r1;
          (m, r3) \<leftarrow> take_digits 2 0 r2;
          if r3 = [] \<and> h \<le> 23 \<and> m \<le> 59
          then Some ((if c = 0x2D then - 1 else 1) * ((int h * 60 + int m) * 60000))
          else None
        }
      else None)"

definition parseISO :: "jsstring \<Rightarrow> int option" where
  "parseISO s =
     do {
       (y, r) \<leftarrow> parse_year s;
       r \<leftarrow> expect 0x2D r;
       (mo, r) \<leftarrow> take_digits 2 0 r;
       r \<leftarrow> expect 0x2D r;
       (dt, r) \<leftarrow> take_digits 2 0 r;
       r \<leftarrow> expect 0x54 r;
       (h, r) \<leftarrow> take_digits 2 0 r;
       r \<leftarrow> expect 0x3A r;
       (mi, r) \<leftarrow> take_digits 2 0 r;
       r \<leftarrow> expect 0x3A r;
       (sec, r) \<leftarrow> take_digits 2 0 r;
       r \<leftarrow> expect 0x2E r;
       (ms, r) \<leftarrow> take_digits 3 0 r;
       off \<leftarrow> parse_offset r;
       if 1 \<le> mo \<and> mo \<le> 12 \<and> 1 \<le> dt
          \<and> int dt \<le> monthStart (int mo) (InLeapYear y) - monthStart (int mo - 1) (InLeapYear y)
          \<and> h \<le> 23 \<and> mi \<le> 59 \<and> sec \<le> 59
       then TimeClip (MakeDate (MakeDay y (int mo - 1) (int dt))
                        (MakeTime (int h) (int mi) (int sec) (int ms)) - off)
       else None
     }"

section \<open>What is left to the engine\<close>

text \<open>
  Four things depend on the engine's double arithmetic or are implementation-defined, and
  are parameters of the model: whether the Number of a literal is truthy, the time value
  of \<open>new Date(n)\<close> for such a Number, the time value of \<open>new Date(v)\<close> for an array or
  object (through ToPrimitive), and \<open>Date.parse\<close> on a string \<open>parseISO\<close> does not read.
\<close>

record engine =
  number_truthy :: "jsstring \<Rightarrow> bool"
  number_time :: "jsstring \<Rightarrow> Date"
  object_time :: "jsval \<Rightarrow> Date"
  parse_other :: "jsstring \<Rightarrow> Date"

definition Date_parse :: "engine \<Rightarrow> jsstring \<Rightarrow> Date" where
  "Date_parse eng s =
     (case parseISO s of Some t \<Rightarrow> Some t | None \<Rightarrow> Option.bind (parse_other eng s) TimeClip)"

fun ToBoolean :: "engine \<Rightarrow> jsval \<Rightarrow> bool" where
  "ToBoolean eng JUndefined = False"
| "ToBoolean eng JNull = False"
| "ToBoolean eng (JBool b) = b"
| "ToBoolean eng (JNum n) = number_truthy eng n"
| "ToBoolean eng (JStr s) = (s \<noteq> [])"
| "ToBoolean eng (JArr vs) = True"
| "ToBoolean eng (JObj ms) = True"

text \<open>\<open>new Date(v)\<close> with one argument.\<close>

fun new_Date :: "engine \<Rightarrow> jsval \<Rightarrow> Date" where
  "new_Date eng (JStr s) = Date_parse eng s"
| "new_Date eng JUndefined = None"
| "new_Date eng JNull = Some 0"
| "new_Date eng (JBool b) = Some (if b then 1 else 0)"
| "new_Date eng (JNum n) = Option.bind (number_time eng n) TimeClip"
| "new_Date eng v = Option.bind (object_time eng v) TimeClip"

text \<open>\<open>a > b\<close> on two Dates compares the time values; with a NaN it is false.\<close>

fun date_gt :: "Date \<Rightarrow> Date \<Rightarrow> bool" where
  "date_gt (Some a) (Some b) = (b < a)"
| "date_gt _ _ = False"

text \<open>
  Reading a property that no prototype defines (\<open>courseId\<close>, \<open>courseCode\<close>, \<open>expiresAt\<close>):
  on \<open>null\<close> a TypeError (\<open>None\<close>), on an object its own property or \<open>undefined\<close>, on any
  other value \<open>undefined\<close>.
\<close>

fun get_prop :: "jsval \<Rightarrow> jsstring \<Rightarrow> jsval option" where
  "get_prop JNull k = None"
| "get_prop JUndefined k = None"
| "get_prop (JObj ms) k = Some (case map_of ms k of None \<Rightarrow> JUndefined | Some v \<Rightarrow> v)"
| "get_prop v k = Some JUndefined"

section \<open>The student's scan: handleBarCodeScanned\<close>

record Course =
  course_id :: jsstring
  courseCode :: jsstring
  courseName :: jsstring
  lecturerId :: "jsstring option"
  students :: "jsstring list option"

text \<open>The Error thrown, by what it reports; \<open>TypeError\<close> is the engine's own.\<close>

datatype scan_error =
    InvalidFormat
  | CourseNotAvailable
  | WrongCourse
  | NotEnrolled
  | Expired
  | TypeError

text \<open>The body of the POST to \<open>/attendance/scan\<close>.\<close>

record scan_request =
  body_qrData :: jsstring
  body_studentId :: jsstring
  body_intendedCourseId :: jsstring
  body_courseCode :: jsstring

text \<open>
  \<open>courses.some(course => course._id === qrDataObj.courseId && course.students &&
  course.students.includes(currentUserId))\<close>
\<close>

definition isEnrolled :: "Course list \<Rightarrow> jsstring \<Rightarrow> jsval \<Rightarrow> bool" where
  "isEnrolled courses currentUserId qrCourseId =
     list_ex (\<lambda>course. JStr (course_id course) = qrCourseId \<and>
                (case students course of None \<Rightarrow> False | Some ss \<Rightarrow> currentUserId \<in> set ss))
       courses"

text \<open>
  The handler up to its request: \<open>courses\<close>, \<open>currentUserId\<close> and \<open>currentScanningCourse\<close>
  are the component's state, \<open>now\<close> the device clock read by \<open>new Date()\<close>, \<open>data\<close> the
  scanned text. \<open>Inl\<close> is the Error caught at the end of the handler, \<open>Inr\<close> the scan sent
  to the backend.
\<close>

definition handleBarCodeScanned ::
  "engine \<Rightarrow> Course list \<Rightarrow> jsstring \<Rightarrow> Course option \<Rightarrow> int \<Rightarrow> jsstring
     \<Rightarrow> scan_error + scan_request" where
  "handleBarCodeScanned eng courses currentUserId currentScanningCourse now data =
     (case JSON_parse data of
        None \<Rightarrow> Inl InvalidFormat
      | Some qrDataObj \<Rightarrow>
          (case currentScanningCourse of
             None \<Rightarrow> Inl CourseNotAvailable
           | Some sc \<Rightarrow>
               (case get_prop qrDataObj (js ''courseId'') of
                  None \<Rightarrow> Inl TypeError
                | Some qrCourseId \<Rightarrow>
                    if qrCourseId \<noteq> JStr (course_id sc) then Inl WrongCourse
                    else if \<not> isEnrolled courses currentUserId qrCourseId then Inl NotEnrolled
                    else
                      (case get_prop qrDataObj (js ''expiresAt'') of
                         None \<Rightarrow> Inl TypeError
                       | Some qrExpiresAt \<Rightarrow>
                           if ToBoolean eng qrExpiresAt
                              \<and> date_gt (Some now) (new_Date eng qrExpiresAt)
                           then Inl Expired
                           else Inr \<lparr> body_qrData = data, body_studentId = currentUserId,
                                      body_intendedCourseId = course_id sc,
                                      body_courseCode = courseCode sc \<rparr>))))"

section \<open>JSON.stringify of an object of strings\<close>

text \<open>
  QuoteJSONString: the two-character escapes, \<open>\uXXXX\<close> (lower-case hexadecimal) for the
  other control characters and for a surrogate that is not half of a pair, every other
  code unit as it is.
\<close>

definition hexdigit :: "nat \<Rightarrow> jschar" where
  "hexdigit d = (if d < 10 then 0x30 + of_nat d else 0x61 + of_nat (d - 10))"

definition UnicodeEscape :: "jschar \<Rightarrow> jsstring" where
  "UnicodeEscape c =
     [0x5C, 0x75, hexdigit (unat c div 4096), hexdigit (unat c div 256 mod 16),
      hexdigit (unat c div 16 mod 16), hexdigit (unat c mod 16)]"

definition is_high :: "jschar \<Rightarrow> bool" where
  "is_high c = (0xD800 \<le> c \<and> c \<le> 0xDBFF)"

definition is_low :: "jschar \<Rightarrow> bool" where
  "is_low c = (0xDC00 \<le> c \<and> c \<le> 0xDFFF)"

fun quote_body :: "jsstring \<Rightarrow> jsstring" where
  "quote_body [] = []"
| "quote_body (c # cs) =
     (if c = 0x08 then [0x5C, 0x62] @ quote_body cs
      else if c = 0x09 then [0x5C, 0x74] @ quote_body cs
      else if c = 0x0A then [0x5C, 0x6E] @ quote_body cs
      else if c = 0x0C then [0x5C, 0x66] @ quote_body cs
      else if c = 0x0D then [0x5C, 0x72] @ quote_body cs
      else if c = 0x22 then [0x5C, 0x22] @ quote_body cs
      else if c = 0x5C then [0x5C, 0x5C] @ quote_body cs
      else if c < 0x20 then UnicodeEscape c @ quote_body cs
      else if is_high c then
        (case cs of
           [] \<Rightarrow> UnicodeEscape c
         | d # ds \<Rightarrow>
             if is_low d then c # d # quote_body ds
             else UnicodeEscape c @ quote_body cs)
      else if is_low c then UnicodeEscape c @ quote_body cs
      else c # quote_body cs)"

definition QuoteJSONString :: "jsstring \<Rightarrow> jsstring" where
  "QuoteJSONString s = 0x22 # quote_body s @ [0x22]"

fun members :: "(jsstring \<times> jsstring) list \<Rightarrow> jsstring" where
  "members [] = []"
| "members [(k, v)] = QuoteJSONString k @ [0x3A] @ QuoteJSONString v"
| "members ((k, v) # m # ms) =
     QuoteJSONString k @ [0x3A] @ QuoteJSONString v @ [0x2C] @ members (m # ms)"

text \<open>\<open>JSON.stringify\<close> of an object literal whose properties, in order, are strings.\<close>

definition JSON_stringify :: "(jsstring \<times> jsstring) list \<Rightarrow> jsstring" where
  "JSON_stringify props = [0x7B] @ members props @ [0x7D]"

section \<open>The lecturer's side\<close>

text \<open>\<open>now\<close> is the device clock, the time value of \<open>new Date()\<close>.\<close>

definition getPhilippineTime :: "int \<Rightarrow> Date" where
  "getPhilippineTime now = TimeClip (now + 8 * 60 * 60 * 1000)"

text \<open>\<open>new Date(d.getTime() + k)\<close>\<close>

definition date_plus :: "Date \<Rightarrow> int \<Rightarrow> Date" where
  "date_plus d k = Option.bind d (\<lambda>t. TimeClip (t + k))"

text \<open>The object literal of \<open>generateQRData\<close>, and the function: \<open>None\<close> is the RangeError of \<open>toISOString\<close>.\<close>

definition qrFields :: "int \<Rightarrow> Course \<Rightarrow> (jsstring \<times> jsstring) list option" where
  "qrFields now course =
     (let phTime = getPhilippineTime now;
          expiryTime = date_plus phTime (60 * 60 * 1000)
      in case toISOString phTime of
           None \<Rightarrow> None
         | Some g \<Rightarrow>
             (case toISOString expiryTime of
                None \<Rightarrow> None
              | Some e \<Rightarrow>
                  Some [(js ''courseId'', course_id course),
                        (js ''courseCode'', courseCode course),
                        (js ''courseName'', courseName course),
                        (js ''generatedAt'', g),
                        (js ''expiresAt'', e)]))"

definition generateQRData :: "int \<Rightarrow> Course \<Rightarrow> jsstring option" where
  "generateQRData now course = map_option JSON_stringify (qrFields now course)"

subsection \<open>The course card\<close>

text \<open>
  What \<open>GET /attendance/course/:id\<close> answers: the fetch or the reading of its body throws,
  or the response is not ok, or it carries the course's sessions.
\<close>

datatype 'a response = Threw | NotOk | Ok 'a

record scan =
  scan_student :: jsstring
  scannedAt :: jsstring

record attendance_record =
  generatedAt :: jsstring
  expiresAt :: jsstring
  qrCodeData :: jsstring
  scannedBy :: "scan list"

record qr =
  qr_data :: jsstring
  qr_expiresAt :: jsstring

record card =
  qrData :: "qr option"
  showQRModal :: bool
  showConfirmModal :: bool
  lastCheckTime :: int
  newScans :: nat

text \<open>\<open>timeDiff <= 5 * 60 * 1000\<close>, false when either time value is NaN.\<close>

fun within_5_minutes :: "Date \<Rightarrow> Date \<Rightarrow> bool" where
  "within_5_minutes (Some ph) (Some rt) = (ph - rt \<le> 5 * 60 * 1000)"
| "within_5_minutes _ _ = False"

text \<open>The \<open>reduce\<close> of \<open>handleNewScan\<close>.\<close>

definition recentScans :: "engine \<Rightarrow> int \<Rightarrow> attendance_record list \<Rightarrow> nat" where
  "recentScans eng later records =
     foldl (\<lambda>count record.
              if within_5_minutes (getPhilippineTime later) (Date_parse eng (generatedAt record))
              then count + length (scannedBy record)
              else count)
       0 records"

text \<open>
  One tick of the poller. \<open>now\<close> is the clock at the start of the tick, \<open>resp\<close> what the
  fetch answers when it is made, \<open>later\<close> the clock once the answer is there, when
  \<open>getPhilippineTime\<close> is called. The first component tells whether the attendance records
  were fetched.
\<close>

definition handleNewScan ::
  "engine \<Rightarrow> int \<Rightarrow> attendance_record list response \<Rightarrow> int \<Rightarrow> card \<Rightarrow> bool \<times> card" where
  "handleNewScan eng now resp later st =
     (if now - lastCheckTime st < 3000 then (False, st)
      else
        (case resp of
           Ok records \<Rightarrow>
             (True, st\<lparr> newScans := recentScans eng later records, lastCheckTime := now \<rparr>)
         | _ \<Rightarrow> (True, st)))"













text \<open>
  The count as the spec words it: the scans, over all sessions, whose \<open>scannedAt\<close> lies in
  \<open>[now - window, now]\<close>, \<open>now\<close> being the institutional clock.
\<close>

fun in_window :: "Date \<Rightarrow> int \<Rightarrow> Date \<Rightarrow> bool" where
  "in_window (Some ph) window (Some t) = (ph - window \<le> t \<and> t \<le> ph)"
| "in_window _ _ _ = False"

definition countRecentScans_spec :: "engine \<Rightarrow> int \<Rightarrow> int \<Rightarrow> attendance_record list \<Rightarrow> nat" where
  "countRecentScans_spec eng now window records =
     sum_list (map (\<lambda>record.
                 length (filter (\<lambda>sc. in_window (getPhilippineTime now) window
                                        (Date_parse eng (scannedAt sc)))
                           (scannedBy record)))
               records)"

section \<open>Auxiliary definitions\<close>

text \<open>The tokens of the members of a stringified object, and the object they build.\<close>

fun member_tokens :: "(jsstring \<times> jsstring) list \<Rightarrow> token list" where
  "member_tokens [] = []"
| "member_tokens [(k, v)] = [TString k, TColon, TString v]"
| "member_tokens ((k, v) # m # ms) = [TString k, TColon, TString v, TComma] @ member_tokens (m # ms)"

definition put_all :: "(jsstring \<times> jsval) list \<Rightarrow> (jsstring \<times> jsstring) list \<Rightarrow> (jsstring \<times> jsval) list" where
  "put_all ms props = foldl (\<lambda>ms (k, v). obj_put k (JStr v) ms) ms props"


text \<open>An engine that reads no date outside \<open>parseISO\<close>, and a course, for the examples.\<close>

definition plain_engine :: engine where
  "plain_engine = \<lparr> number_truthy = (\<lambda>n. True), number_time = (\<lambda>n. None),
                     object_time = (\<lambda>v. None), parse_other = (\<lambda>s. None) \<rparr>"

definition cs101 :: Course where
  "cs101 = \<lparr> course_id = js ''c1'', courseCode = js ''CS101'', courseName = js ''Intro'',
              lecturerId = Some (js ''l1''), students = Some [js ''s1'', js ''s2''] \<rparr>"

text \<open>What \<open>generateQRData\<close> makes for that course when the device clock reads 2025-05-18T06:20:00.000Z.\<close>

definition minted_cs101 :: jsstring where
  \<open>minted_cs101 = js ''{"courseId":"c1","courseCode":"CS101","courseName":"Intro","generatedAt":"2025-05-18T14:20:00.000Z","expiresAt":"2025-05-18T15:20:00.000Z"}''\<close>

text \<open>
  The session of that token as the ledger lists it, a session generated ten minutes
  earlier with one scan at 14:19, and a course card at rest.
\<close>

definition session_1420 :: attendance_record where
  "session_1420 = \<lparr> generatedAt = js ''2025-05-18T14:20:00.000Z'',
                      expiresAt = js ''2025-05-18T15:20:00.000Z'',
                      qrCodeData = minted_cs101, scannedBy = [] \<rparr>"

definition session_1410 :: attendance_record where
  "session_1410 = \<lparr> generatedAt = js ''2025-05-18T14:10:00.000Z'',
                      expiresAt = js ''2025-05-18T15:10:00.000Z'',
                      qrCodeData = js ''qr'',
                      scannedBy = [\<lparr> scan_student = js ''s1'',
                                     scannedAt = js ''2025-05-18T14:19:00.000Z'' \<rparr>] \<rparr>"

definition idle_card :: card where
  "idle_card = \<lparr> qrData = None, showQRModal = False, showConfirmModal = False,
                   lastCheckTime = 1747549190000, newScans = 7 \<rparr>"

section \<open>The calendar: printing and reading a time value\<close>

lemma DayFromYear_1970: "DayFromYear 1970 = 0"
  by (simp add: DayFromYear_def)

lemma InLeapYear_range: "0 \<le> InLeapYear y" "InLeapYear y \<le> 1"
  by (simp_all add: InLeapYear_def)

lemma DayFromYear_up: "0 \<le> k \<Longrightarrow> 365 * k \<le> DayFromYear (1970 + k) \<and> DayFromYear (1970 + k) \<le> 366 * k"
proof (induction k rule: int_ge_induct)
  case base
  then show ?case by (simp add: DayFromYear_1970)
next
  case (step i)
  have "DayFromYear (1970 + (i + 1)) = DayFromYear (1970 + i) + 365 + InLeapYear (1970 + i)"
    using DayFromYear_step [of "1970 + i"] by (simp add: add.assoc)
  with step InLeapYear_range [of "1970 + i"] show ?case by simp
qed

lemma DayFromYear_down: "k \<le> 0 \<Longrightarrow> 366 * k \<le> DayFromYear (1970 + k) \<and> DayFromYear (1970 + k) \<le> 365 * k"
proof (induction k rule: int_le_induct)
  case base
  then show ?case by (simp add: DayFromYear_1970)
next
  case (step i)
  have "DayFromYear (1970 + (i - 1) + 1) = DayFromYear (1970 + (i - 1)) + 365 + InLeapYear (1970 + (i - 1))"
    by (rule DayFromYear_step)
  then have "DayFromYear (1970 + i) = DayFromYear (1970 + (i - 1)) + 365 + InLeapYear (1970 + (i - 1))"
    by simp
  with step InLeapYear_range [of "1970 + (i - 1)"] show ?case by simp
qed

lemma year_search_correct:
  "DayFromYear y0 \<le> d \<Longrightarrow>
   DayFromYear (year_search d y0) \<le> d \<and> d < DayFromYear (year_search d y0 + 1)"
proof (induction d y0 rule: year_search.induct)
  case (1 d y)
  show ?case
  proof (cases "DayFromYear (y + 1) \<le> d")
    case True
    with 1 show ?thesis by (subst (1 2) year_search.simps) simp
  next
    case False
    with 1 show ?thesis by (subst (1 2) year_search.simps) simp
  qed
qed

lemma year_start_ok:
  "DayFromYear (1970 + (if 0 \<le> d then d div 366 else d div 365)) \<le> d"
proof (cases "0 \<le> d")
  case True
  then have k: "0 \<le> d div 366" by simp
  have "366 * (d div 366) \<le> d"
    using div_mult_mod_eq [of d 366] Euclidean_Rings.pos_mod_sign [of 366 d] by simp
  with DayFromYear_up [OF k] True show ?thesis by simp
next
  case False
  then have "d div 365 < 0" by (simp add: neg_imp_zdiv_neg_iff)
  then have k: "d div 365 \<le> 0" by simp
  have "365 * (d div 365) \<le> d"
    using div_mult_mod_eq [of d 365] Euclidean_Rings.pos_mod_sign [of 365 d] by simp
  with DayFromYear_down [OF k] False show ?thesis by simp
qed

lemma YearFromDay_correct:
  "DayFromYear (YearFromDay d) \<le> d \<and> d < DayFromYear (YearFromDay d + 1)"
  unfolding YearFromDay_def by (rule year_search_correct) (rule year_start_ok)

lemma YearFromDay_bounds:
  assumes "- 100000000 \<le> d" "d \<le> 100000000"
  shows "- 275000 < YearFromDay d \<and> YearFromDay d < 276000"
proof -
  define y where "y = YearFromDay d"
  have c: "DayFromYear y \<le> d" "d < DayFromYear (y + 1)"
    using YearFromDay_correct [of d] by (simp_all add: y_def)
  have "y < 276000"
  proof (rule ccontr)
    assume "\<not> y < 276000"
    then have k: "0 \<le> y - 1970" by simp
    have e: "1970 + (y - 1970) = y" by simp
    from DayFromYear_up [OF k] have "365 * (y - 1970) \<le> DayFromYear y"
      by (simp only: e)
    with c(1) assms(2) \<open>\<not> y < 276000\<close> show False by simp
  qed
  moreover have "- 275000 < y"
  proof (rule ccontr)
    assume n: "\<not> - 275000 < y"
    then have k: "y + 1 - 1970 \<le> 0" by simp
    have e: "1970 + (y + 1 - 1970) = y + 1" by simp
    from DayFromYear_down [OF k] have "DayFromYear (y + 1) \<le> 365 * (y + 1 - 1970)"
      by (simp only: e)
    with c(2) assms(1) n show False by simp
  qed
  ultimately show ?thesis by (simp add: y_def)
qed

lemma month_day_ok:
  assumes "0 \<le> n" "n < 365 + l" "l = 0 \<or> l = 1"
  shows "0 \<le> MonthFromDay n l \<and> MonthFromDay n l \<le> 11
       \<and> 1 \<le> n - monthStart (MonthFromDay n l) l + 1
       \<and> n - monthStart (MonthFromDay n l) l + 1
            \<le> monthStart (MonthFromDay n l + 1) l - monthStart (MonthFromDay n l) l
       \<and> n - monthStart (MonthFromDay n l) l + 1 \<le> 31"
  using assms by (auto simp: MonthFromDay_def monthStart_def)

lemma time_split:
  fixes tw :: int
  assumes "0 \<le> tw" "tw < 86400000"
  shows "MakeTime (tw div 3600000) (tw div 60000 mod 60) (tw div 1000 mod 60) (tw mod 1000) = tw"
    and "0 \<le> tw div 3600000" "tw div 3600000 \<le> 23"
proof -
  have a: "tw div 60000 = tw div 1000 div 60"
    using zdiv_zmult2_eq [of 60 tw 1000] by simp
  have b: "tw div 3600000 = tw div 1000 div 60 div 60"
    using zdiv_zmult2_eq [of 60 tw 60000] a by simp
  define q where "q = tw div 1000"
  define p where "p = q div 60"
  have 1: "tw = 1000 * q + tw mod 1000" by (simp add: q_def)
  have 2: "q = 60 * p + q mod 60" by (simp add: p_def)
  have 3: "p = 60 * (p div 60) + p mod 60" by simp
  show "MakeTime (tw div 3600000) (tw div 60000 mod 60) (tw div 1000 mod 60) (tw mod 1000) = tw"
    unfolding MakeTime_def a b
    using 1 2 3 unfolding q_def [symmetric] p_def [symmetric] by linarith
  show "0 \<le> tw div 3600000" using assms by (simp add: pos_imp_zdiv_nonneg_iff)
  have "tw div 3600000 \<le> 86399999 div 3600000"
    by (rule zdiv_mono1) (use assms in simp_all)
  then show "tw div 3600000 \<le> 23" by simp
qed

lemma digit_char:
  assumes "k < 10"
  shows "is_digit (0x30 + of_nat k)" "unat (0x30 + of_nat k :: jschar) - 48 = k"
    "(0x30 + of_nat k :: jschar) \<noteq> 0x2B" "(0x30 + of_nat k :: jschar) \<noteq> 0x2D"
proof -
  from assms have "k = 0 \<or> k = 1 \<or> k = 2 \<or> k = 3 \<or> k = 4 \<or> k = 5 \<or> k = 6 \<or> k = 7 \<or> k = 8 \<or> k = 9"
    by arith
  then show "is_digit (0x30 + of_nat k)" "unat (0x30 + of_nat k :: jschar) - 48 = k"
    "(0x30 + of_nat k :: jschar) \<noteq> 0x2B" "(0x30 + of_nat k :: jschar) \<noteq> 0x2D"
    by (auto simp: is_digit_def)
qed

lemma take_digits_dec:
  "n < 10 ^ w \<Longrightarrow> take_digits w acc (dec w n @ rest) = Some (acc * 10 ^ w + n, rest)"
proof (induction w arbitrary: n acc)
  case 0
  then show ?case by simp
next
  case (Suc w)
  from Suc.prems have q: "n div 10 ^ w < 10"
    by (simp add: less_mult_imp_div_less)
  have r: "n mod 10 ^ w < 10 ^ w" by simp
  have "(acc * 10 + n div 10 ^ w) * 10 ^ w + n mod 10 ^ w = acc * 10 ^ Suc w + n"
    using div_mult_mod_eq [of n "10 ^ w"] by (simp add: algebra_simps)
  then show ?case
    using Suc.IH [OF r] digit_char [OF q] by simp
qed

lemma dec_Cons:
  "0 < w \<Longrightarrow> dec w n = (0x30 + of_nat (n div 10 ^ (w - 1))) # dec (w - 1) (n mod 10 ^ (w - 1))"
  by (cases w) simp_all

lemma parse_year_unsigned:
  "c \<noteq> 0x2B \<Longrightarrow> c \<noteq> 0x2D \<Longrightarrow>
   parse_year (c # r) =
     (case take_digits 4 0 (c # r) of None \<Rightarrow> None | Some (n, r1) \<Rightarrow> Some (int n, r1))"
  by simp

lemma parse_year_str:
  assumes "- 999999 \<le> y" "y \<le> 999999"
  shows "parse_year (year_str y @ rest) = Some (y, rest)"
proof (cases "0 \<le> y \<and> y \<le> 9999")
  case True
  then have n: "nat y < 10 ^ 4" by auto
  then have q: "nat y div 10 ^ (4 - 1) < 10" by simp
  define c :: jschar where "c = 0x30 + of_nat (nat y div 10 ^ (4 - 1))"
  have c: "c \<noteq> 0x2B" "c \<noteq> 0x2D"
    unfolding c_def by (rule digit_char(3) [OF q], rule digit_char(4) [OF q])
  have e: "dec 4 (nat y) = c # dec (4 - 1) (nat y mod 10 ^ (4 - 1))"
    unfolding c_def by (rule dec_Cons) simp
  have "parse_year (dec 4 (nat y) @ rest) =
          (case take_digits 4 0 (dec 4 (nat y) @ rest) of
             None \<Rightarrow> None | Some (n, r1) \<Rightarrow> Some (int n, r1))"
    unfolding e using parse_year_unsigned [OF c] by simp
  also have "\<dots> = Some (y, rest)"
    using take_digits_dec [OF n, of 0 rest] True by simp
  finally show ?thesis using True by (simp add: year_str_def)
next
  case False
  have n: "nat \<bar>y\<bar> < 10 ^ 6" using assms by auto
  show ?thesis
  proof (cases "y < 0")
    case True
    then have "nat \<bar>y\<bar> \<noteq> 0" by simp
    with True False show ?thesis
      using take_digits_dec [OF n, of 0 rest] by (simp add: year_str_def)
  next
    case False
    with \<open>\<not> (0 \<le> y \<and> y \<le> 9999)\<close> show ?thesis
      using take_digits_dec [OF n, of 0 rest] by (simp add: year_str_def)
  qed
qed

lemma parseISO_print:
  assumes "- 999999 \<le> y" "y \<le> 999999"
    and "1 \<le> mo" "mo \<le> 12" "1 \<le> dt"
    and "int dt \<le> monthStart (int mo) (InLeapYear y) - monthStart (int mo - 1) (InLeapYear y)"
    and "dt \<le> 31"
    and "h \<le> 23" "mi \<le> 59" "sec \<le> 59" "ms \<le> 999"
  shows "parseISO (year_str y @ [0x2D] @ dec 2 mo @ [0x2D] @ dec 2 dt @ [0x54] @ dec 2 h
                   @ [0x3A] @ dec 2 mi @ [0x3A] @ dec 2 sec @ [0x2E] @ dec 3 ms @ [0x5A])
         = TimeClip (MakeDate (MakeDay y (int mo - 1) (int dt))
                       (MakeTime (int h) (int mi) (int sec) (int ms)))"
proof -
  have b: "mo < 10 ^ 2" "dt < 10 ^ 2" "h < 10 ^ 2" "mi < 10 ^ 2" "sec < 10 ^ 2" "ms < 10 ^ 3"
    using assms by simp_all
  show ?thesis
    unfolding parseISO_def
    using assms
    by (simp add: parse_year_str take_digits_dec b)
qed

lemma toISOString_Some: "toISOString (Some t) \<noteq> None"
  by (simp add: toISOString_def Let_def)

lemma parseISO_toISOString:
  assumes "\<bar>t\<bar> \<le> 8640000000000000" and "toISOString (Some t) = Some s"
  shows "parseISO s = Some t"
proof -
  define dy where "dy = Day t"
  define tw where "tw = TimeWithinDay t"
  define y where "y = YearFromDay dy"
  define l where "l = InLeapYear y"
  define n where "n = dy - DayFromYear y"
  define m where "m = MonthFromDay n l"
  define dt where "dt = n - monthStart m l + 1"
  have s: "s = year_str y @ [0x2D] @ dec 2 (nat (m + 1)) @ [0x2D] @ dec 2 (nat dt)
                @ [0x54] @ dec 2 (nat (tw div 3600000))
                @ [0x3A] @ dec 2 (nat (tw div 60000 mod 60))
                @ [0x3A] @ dec 2 (nat (tw div 1000 mod 60))
                @ [0x2E] @ dec 3 (nat (tw mod 1000)) @ [0x5A]"
  proof -
    have "toISOString (Some t) = Some (year_str y @ [0x2D] @ dec 2 (nat (m + 1)) @ [0x2D] @ dec 2 (nat dt)
                @ [0x54] @ dec 2 (nat (tw div 3600000))
                @ [0x3A] @ dec 2 (nat (tw div 60000 mod 60))
                @ [0x3A] @ dec 2 (nat (tw div 1000 mod 60))
                @ [0x2E] @ dec 3 (nat (tw mod 1000)) @ [0x5A])"
      unfolding toISOString_def Let_def option.case dt_def m_def n_def l_def y_def tw_def dy_def
      by (rule refl)
    with assms(2) show ?thesis by (simp only: option.inject)
  qed
  have "t div 86400000 \<le> 8640000000000000 div 86400000"
    by (rule zdiv_mono1) (use assms(1) in simp_all)
  moreover have "(- 8640000000000000) div 86400000 \<le> t div 86400000"
    by (rule zdiv_mono1) (use assms(1) in simp_all)
  ultimately have dyb: "- 100000000 \<le> dy" "dy \<le> 100000000"
    by (simp_all add: dy_def Day_def)
  have yb: "- 999999 \<le> y" "y \<le> 999999"
    using YearFromDay_bounds [OF dyb] by (simp_all add: y_def)
  have yc: "DayFromYear y \<le> dy" "dy < DayFromYear (y + 1)"
    using YearFromDay_correct [of dy] by (simp_all add: y_def)
  have nb: "0 \<le> n" "n < 365 + l"
    using yc DayFromYear_step [of y] by (simp_all add: n_def l_def)
  have lb: "l = 0 \<or> l = 1" by (simp add: l_def InLeapYear_def)
  have "0 \<le> m \<and> m \<le> 11 \<and> 1 \<le> dt \<and> dt \<le> monthStart (m + 1) l - monthStart m l \<and> dt \<le> 31"
    unfolding dt_def m_def by (rule month_day_ok [OF nb lb])
  then have md: "0 \<le> m" "m \<le> 11" "1 \<le> dt" "dt \<le> monthStart (m + 1) l - monthStart m l" "dt \<le> 31"
    by blast+
  have twb: "0 \<le> tw" "tw < 86400000" by (simp_all add: tw_def TimeWithinDay_def)
  define hh where "hh = tw div 3600000"
  define mi where "mi = tw div 60000 mod 60"
  define ss where "ss = tw div 1000 mod 60"
  define ms where "ms = tw mod 1000"
  have tm: "MakeTime hh mi ss ms = tw"
    unfolding hh_def mi_def ss_def ms_def by (rule time_split(1) [OF twb])
  have hb: "0 \<le> hh" "hh \<le> 23"
    unfolding hh_def by (rule time_split(2) [OF twb], rule time_split(3) [OF twb])
  have mb: "0 \<le> mi" "mi \<le> 59" "0 \<le> ss" "ss \<le> 59" "0 \<le> ms" "ms \<le> 999"
  proof -
    have "0 \<le> tw div 60000 mod 60" "tw div 60000 mod 60 < 60"
      by (rule Euclidean_Rings.pos_mod_sign, simp, rule Euclidean_Rings.pos_mod_bound, simp)
    then show "0 \<le> mi" "mi \<le> 59" unfolding mi_def by linarith+
    have "0 \<le> tw div 1000 mod 60" "tw div 1000 mod 60 < 60"
      by (rule Euclidean_Rings.pos_mod_sign, simp, rule Euclidean_Rings.pos_mod_bound, simp)
    then show "0 \<le> ss" "ss \<le> 59" unfolding ss_def by linarith+
    have "0 \<le> tw mod 1000" "tw mod 1000 < 1000"
      by (rule Euclidean_Rings.pos_mod_sign, simp, rule Euclidean_Rings.pos_mod_bound, simp)
    then show "0 \<le> ms" "ms \<le> 999" unfolding ms_def by linarith+
  qed
  have day: "MakeDay y m dt = dy"
    by (simp add: MakeDay_def dt_def n_def l_def)
  have whole: "MakeDate dy tw = t"
    by (simp add: MakeDate_def dy_def tw_def Day_def TimeWithinDay_def)
  have s': "s = year_str y @ [0x2D] @ dec 2 (nat (m + 1)) @ [0x2D] @ dec 2 (nat dt)
                @ [0x54] @ dec 2 (nat hh) @ [0x3A] @ dec 2 (nat mi) @ [0x3A] @ dec 2 (nat ss)
                @ [0x2E] @ dec 3 (nat ms) @ [0x5A]"
    unfolding hh_def mi_def ss_def ms_def by (rule s)
  have "parseISO s = TimeClip (MakeDate (MakeDay y (int (nat (m + 1)) - 1) (int (nat dt)))
                       (MakeTime (int (nat hh)) (int (nat mi)) (int (nat ss)) (int (nat ms))))"
    unfolding s'
  proof (rule parseISO_print)
    show "- 999999 \<le> y" "y \<le> 999999" by (rule yb)+
    show "1 \<le> nat (m + 1)" "nat (m + 1) \<le> 12" using md by simp_all
    show "1 \<le> nat dt" "nat dt \<le> 31" using md by simp_all
    show "int (nat dt) \<le> monthStart (int (nat (m + 1))) (InLeapYear y)
            - monthStart (int (nat (m + 1)) - 1) (InLeapYear y)"
      using md by (simp add: l_def)
    show "nat hh \<le> 23" using hb by simp
    show "nat mi \<le> 59" "nat ss \<le> 59" "nat ms \<le> 999"
      using mb by simp_all
  qed
  also have "\<dots> = TimeClip (MakeDate (MakeDay y m dt) (MakeTime hh mi ss ms))"
    using md hb mb by simp
  also have "\<dots> = Some t"
    using assms(1) by (simp add: tm day whole TimeClip_def)
  finally show ?thesis .
qed

section \<open>JSON: parsing what was stringified\<close>

lemma hexval_hexdigit: "d < 16 \<Longrightarrow> hexval (hexdigit d) = Some d"
proof -
  assume "d < 16"
  then have "d = 0 \<or> d = 1 \<or> d = 2 \<or> d = 3 \<or> d = 4 \<or> d = 5 \<or> d = 6 \<or> d = 7 \<or> d = 8
    \<or> d = 9 \<or> d = 10 \<or> d = 11 \<or> d = 12 \<or> d = 13 \<or> d = 14 \<or> d = 15"
    by arith
  then show ?thesis
    by (elim disjE) (simp_all add: hexval_def hexdigit_def)
qed

lemma hex_recompose:
  fixes n :: nat
  shows "((n div 4096 * 16 + n div 256 mod 16) * 16 + n div 16 mod 16) * 16 + n mod 16 = n"
proof -
  have a: "n div 256 = n div 16 div 16" using div_mult2_eq [of n 16 16] by simp
  have b: "n div 4096 = n div 16 div 16 div 16" using div_mult2_eq [of n 256 16] a by simp
  define q1 where "q1 = n div 16"
  define q2 where "q2 = q1 div 16"
  have 1: "n = 16 * q1 + n mod 16" by (simp add: q1_def)
  have 2: "q1 = 16 * q2 + q1 mod 16" by (simp add: q2_def)
  have 3: "q2 = 16 * (q2 div 16) + q2 mod 16" by simp
  have "((q2 div 16 * 16 + q2 mod 16) * 16 + q1 mod 16) * 16 + n mod 16
          = (q2 * 16 + q1 mod 16) * 16 + n mod 16"
    by simp
  also have "\<dots> = q1 * 16 + n mod 16" by (simp add: q2_def)
  also have "\<dots> = n" by (simp add: q1_def)
  finally show ?thesis
    unfolding a b q1_def [symmetric] q2_def [symmetric] .
qed

lemma hex4_UnicodeEscape:
  "UnicodeEscape c = [0x5C, 0x75, h1, h2, h3, h4] \<Longrightarrow> hex4 h1 h2 h3 h4 = Some c"
proof -
  assume e: "UnicodeEscape c = [0x5C, 0x75, h1, h2, h3, h4]"
  define n where "n = unat c"
  have "n < 65536" using unsigned_less [of c, where 'a = nat] by (simp add: n_def)
  then have d1: "n div 4096 < 16" by (simp add: less_mult_imp_div_less)
  have h: "h1 = hexdigit (n div 4096)" "h2 = hexdigit (n div 256 mod 16)"
    "h3 = hexdigit (n div 16 mod 16)" "h4 = hexdigit (n mod 16)"
    using e by (simp_all add: UnicodeEscape_def n_def)
  have "hex4 h1 h2 h3 h4 =
          Some (of_nat (((n div 4096 * 16 + n div 256 mod 16) * 16 + n div 16 mod 16) * 16 + n mod 16))"
    unfolding h hex4_def by (simp add: hexval_hexdigit d1)
  also have "\<dots> = Some c" unfolding hex_recompose by (simp add: n_def)
  finally show ?thesis .
qed

lemma lex_string_escape:
  "lex_string acc (UnicodeEscape c @ rest) = lex_string (c # acc) rest"
proof -
  obtain h1 h2 h3 h4 where e: "UnicodeEscape c = [0x5C, 0x75, h1, h2, h3, h4]"
    by (simp add: UnicodeEscape_def)
  show ?thesis
    unfolding e using hex4_UnicodeEscape [OF e] by simp
qed

lemma high_plain: "is_high c \<Longrightarrow> c \<noteq> 0x22 \<and> c \<noteq> 0x5C \<and> \<not> c < 0x20"
  unfolding is_high_def by (auto simp: word_le_nat_alt word_less_nat_alt)

lemma low_plain: "is_low c \<Longrightarrow> c \<noteq> 0x22 \<and> c \<noteq> 0x5C \<and> \<not> c < 0x20"
  unfolding is_low_def by (auto simp: word_le_nat_alt word_less_nat_alt)

lemma lex_string_pair:
  "unescape e = Some d \<Longrightarrow> e \<noteq> 0x75 \<Longrightarrow>
   lex_string acc (0x5C # e # rest) = lex_string (d # acc) rest"
  by simp

lemma lex_string_end:
  "lex_string acc (0x22 # rest) = Some (rev acc, rest)"
  by simp

lemma lex_string_plain:
  "c \<noteq> 0x22 \<Longrightarrow> c \<noteq> 0x5C \<Longrightarrow> \<not> c < 0x20 \<Longrightarrow>
   lex_string acc (c # rest) = lex_string (c # acc) rest"
  by simp

lemma lex_string_quote_body:
  "lex_string acc (quote_body s @ 0x22 # rest) = Some (rev acc @ s, rest)"
proof (induction "length s" arbitrary: s acc rule: less_induct)
  case less
  show ?case
  proof (cases s)
    case Nil
    then show ?thesis by simp
  next
    case (Cons c cs)
    have IH: "\<And>acc'. lex_string acc' (quote_body cs @ 0x22 # rest) = Some (rev acc' @ cs, rest)"
      using less [of cs] Cons by simp
    consider (b) "c = 0x08" | (t) "c = 0x09" | (n) "c = 0x0A" | (f) "c = 0x0C" | (r) "c = 0x0D"
      | (q) "c = 0x22" | (s) "c = 0x5C"
      | (ctl) "c \<noteq> 0x08" "c \<noteq> 0x09" "c \<noteq> 0x0A" "c \<noteq> 0x0C" "c \<noteq> 0x0D" "c \<noteq> 0x22"
          "c \<noteq> 0x5C" "c < 0x20"
      | (other) "c \<noteq> 0x08" "c \<noteq> 0x09" "c \<noteq> 0x0A" "c \<noteq> 0x0C" "c \<noteq> 0x0D" "c \<noteq> 0x22"
          "c \<noteq> 0x5C" "\<not> c < 0x20"
      by blast
    then show ?thesis
    proof cases
      case b
      have "quote_body s = [0x5C, 0x62] @ quote_body cs" by (simp add: Cons b)
      then show ?thesis
        using lex_string_pair [of "0x62" "0x08" acc] IH [of "0x08 # acc"]
        by (simp add: unescape_def Cons b del: lex_string.simps)
    next
      case t
      have "quote_body s = [0x5C, 0x74] @ quote_body cs" by (simp add: Cons t)
      then show ?thesis
        using lex_string_pair [of "0x74" "0x09" acc] IH [of "0x09 # acc"]
        by (simp add: unescape_def Cons t del: lex_string.simps)
    next
      case n
      have "quote_body s = [0x5C, 0x6E] @ quote_body cs" by (simp add: Cons n)
      then show ?thesis
        using lex_string_pair [of "0x6E" "0x0A" acc] IH [of "0x0A # acc"]
        by (simp add: unescape_def Cons n del: lex_string.simps)
    next
      case f
      have "quote_body s = [0x5C, 0x66] @ quote_body cs" by (simp add: Cons f)
      then show ?thesis
        using lex_string_pair [of "0x66" "0x0C" acc] IH [of "0x0C # acc"]
        by (simp add: unescape_def Cons f del: lex_string.simps)
    next
      case r
      have "quote_body s = [0x5C, 0x72] @ quote_body cs" by (simp add: Cons r)
      then show ?thesis
        using lex_string_pair [of "0x72" "0x0D" acc] IH [of "0x0D # acc"]
        by (simp add: unescape_def Cons r del: lex_string.simps)
    next
      case q
      have "quote_body s = [0x5C, 0x22] @ quote_body cs" by (simp add: Cons q)
      then show ?thesis
        using lex_string_pair [of "0x22" "0x22" acc] IH [of "0x22 # acc"]
        by (simp add: unescape_def Cons q del: lex_string.simps)
    next
      case s
      have "quote_body (c # cs) = [0x5C, 0x5C] @ quote_body cs" by (simp add: s)
      then show ?thesis
        using lex_string_pair [of "0x5C" "0x5C" acc] IH [of "0x5C # acc"]
        by (simp add: unescape_def Cons s del: lex_string.simps)
    next
      case ctl
      then have "quote_body (c # cs) = UnicodeEscape c @ quote_body cs" by simp
      then show ?thesis
        using IH [of "c # acc"] by (simp add: lex_string_escape Cons del: lex_string.simps)
    next
      case other
      note plain = lex_string_plain [OF other(6,7,8)]
      show ?thesis
      proof (cases "is_high c")
        case True
        show ?thesis
        proof (cases cs)
          case Nil
          have q: "quote_body s = UnicodeEscape c"
            using other True Nil \<open>s = c # cs\<close> by simp
          show ?thesis
            unfolding q
            by (simp add: lex_string_escape lex_string_end Nil \<open>s = c # cs\<close>
                  del: lex_string.simps)
        next
          case (Cons d ds)
          note cs = Cons
          show ?thesis
          proof (cases "is_low d")
            case low: True
            have q: "quote_body (c # cs) = c # d # quote_body ds"
              using other True low cs by simp
            have ih: "lex_string (d # c # acc) (quote_body ds @ 0x22 # rest)
                    = Some (rev (d # c # acc) @ ds, rest)"
              using less [of ds] \<open>s = c # cs\<close> cs by simp
            have "lex_string acc (quote_body s @ 0x22 # rest)
                    = lex_string acc (c # d # quote_body ds @ 0x22 # rest)"
              by (simp only: \<open>s = c # cs\<close> q append_Cons)
            also have "\<dots> = lex_string (c # acc) (d # quote_body ds @ 0x22 # rest)"
              by (rule plain)
            also have "\<dots> = lex_string (d # c # acc) (quote_body ds @ 0x22 # rest)"
              by (rule lex_string_plain) (use low_plain [OF low] in simp_all)
            also have "\<dots> = Some (rev (d # c # acc) @ ds, rest)" by (rule ih)
            also have "\<dots> = Some (rev acc @ s, rest)"
              by (simp add: \<open>s = c # cs\<close> cs)
            finally show ?thesis .
          next
            case nlow: False
            have "quote_body (c # cs) = UnicodeEscape c @ quote_body cs"
              using other True nlow cs by simp
            then show ?thesis
              using IH [of "c # acc"]
              by (simp add: \<open>s = c # cs\<close> lex_string_escape del: lex_string.simps)
          qed
        qed
      next
        case nh: False
        show ?thesis
        proof (cases "is_low c")
          case True
          have "quote_body (c # cs) = UnicodeEscape c @ quote_body cs"
            using other nh True by simp
          then show ?thesis
            using IH [of "c # acc"] by (simp add: Cons lex_string_escape del: lex_string.simps)
        next
          case nl: False
          have "quote_body (c # cs) = c # quote_body cs"
            using other nh nl by simp
          then show ?thesis
            using IH [of "c # acc"] plain by (simp add: Cons del: lex_string.simps)
        qed
      qed
    qed
  qed
qed

lemma lex_QuoteJSONString:
  "lex (QuoteJSONString s @ rest) = map_option (Cons (TString s)) (lex rest)"
  by (simp add: QuoteJSONString_def is_ws_def lex_string_quote_body)

lemma lex_punct:
  "lex (0x3A # cs) = map_option (Cons TColon) (lex cs)"
  "lex (0x2C # cs) = map_option (Cons TComma) (lex cs)"
  "lex (0x7B # cs) = map_option (Cons TLBrace) (lex cs)"
  "lex (0x7D # cs) = map_option (Cons TRBrace) (lex cs)"
  by (simp_all add: is_ws_def)

lemma lex_members:
  "lex rest = Some ts \<Longrightarrow> lex (members props @ rest) = Some (member_tokens props @ ts)"
proof (induction props rule: members.induct)
  case 1
  then show ?case by simp
next
  case (2 k v)
  then show ?case
    by (simp add: lex_QuoteJSONString lex_punct del: lex.simps)
next
  case (3 k v m ms)
  then show ?case
    by (simp add: lex_QuoteJSONString lex_punct del: lex.simps)
qed

lemma lex_JSON_stringify:
  "lex (JSON_stringify props) = Some (TLBrace # member_tokens props @ [TRBrace])"
proof -
  have "lex [0x7D] = Some [TRBrace]" by (simp add: is_ws_def)
  from lex_members [OF this, of props] show ?thesis
    by (simp add: JSON_stringify_def lex_punct del: lex.simps)
qed

lemma prun_member:
  "prun PKey (FKey ms # st) (TString k # TColon # TString v # ts)
     = prun PAfter (FKey (obj_put k (JStr v) ms) # st) ts"
  "prun PKeyOrEnd (FKey ms # st) (TString k # TColon # TString v # ts)
     = prun PAfter (FKey (obj_put k (JStr v) ms) # st) ts"
  by simp_all

lemma prun_members:
  "props \<noteq> [] \<Longrightarrow>
   prun PKey [FKey ms] (member_tokens props @ [TRBrace]) = Some (JObj (put_all ms props))
   \<and> prun PKeyOrEnd [FKey ms] (member_tokens props @ [TRBrace]) = Some (JObj (put_all ms props))"
proof (induction props arbitrary: ms rule: member_tokens.induct)
  case 1
  then show ?case by simp
next
  case (2 k v)
  show ?case by (simp add: put_all_def)
next
  case (3 k v m ps)
  have "prun PKey [FKey (obj_put k (JStr v) ms)] (member_tokens (m # ps) @ [TRBrace])
          = Some (JObj (put_all (obj_put k (JStr v) ms) (m # ps)))"
    using "3.IH" [of "obj_put k (JStr v) ms"] by simp
  then show ?case by (simp add: put_all_def)
qed

lemma obj_put_fresh: "k \<notin> fst ` set ms \<Longrightarrow> obj_put k v ms = ms @ [(k, v)]"
  by (induction ms) auto

lemma put_all_distinct:
  "distinct (map fst props) \<Longrightarrow> fst ` set props \<inter> fst ` set ms = {} \<Longrightarrow>
   put_all ms props = ms @ map (\<lambda>(k, v). (k, JStr v)) props"
proof (induction props arbitrary: ms)
  case Nil
  then show ?case by (simp add: put_all_def)
next
  case (Cons p props)
  obtain k v where p: "p = (k, v)" by (cases p)
  have fresh: "k \<notin> fst ` set ms" using Cons.prems(2) p by auto
  have d: "distinct (map fst props)" using Cons.prems(1) by simp
  have "fst ` set props \<inter> fst ` set (ms @ [(k, JStr v)]) = {}"
    using Cons.prems p by auto
  from Cons.IH [OF d this] show ?case
    by (simp add: put_all_def p obj_put_fresh [OF fresh])
qed

lemma JSON_parse_stringify:
  assumes "distinct (map fst props)"
  shows "JSON_parse (JSON_stringify props) = Some (JObj (map (\<lambda>(k, v). (k, JStr v)) props))"
proof (cases props)
  case Nil
  then show ?thesis by (simp add: JSON_parse_def lex_JSON_stringify)
next
  case (Cons p ps)
  then have ne: "props \<noteq> []" by simp
  have "put_all [] props = map (\<lambda>(k, v). (k, JStr v)) props"
    using put_all_distinct [OF assms, of "[]"] by simp
  then show ?thesis
    using prun_members [OF ne, of "[]"]
    by (simp add: JSON_parse_def lex_JSON_stringify)
qed


section \<open>The minted payload\<close>

lemma qr_keys_distinct:
  "distinct [js ''courseId'', js ''courseCode'', js ''courseName'', js ''generatedAt'', js ''expiresAt'']"
  by (simp add: js_def)

lemma date_plus_Some:
  "date_plus d k = Some x \<Longrightarrow> \<exists>p. d = Some p \<and> x = p + k \<and> \<bar>p + k\<bar> \<le> 8640000000000000"
  by (cases d) (auto simp: date_plus_def TimeClip_def split: if_splits)

lemma getPhilippineTime_Some:
  "getPhilippineTime now = Some p \<Longrightarrow>
   p = now + 28800000 \<and> \<bar>now + 28800000\<bar> \<le> 8640000000000000"
  by (auto simp: getPhilippineTime_def TimeClip_def split: if_splits)

lemma toISOString_None [simp]: "toISOString None = None"
  by (simp add: toISOString_def)

lemma toISOString_eq_Some: "toISOString d = Some s \<Longrightarrow> \<exists>t. d = Some t"
  by (cases d) simp_all

lemma qrFields_Some:
  assumes "qrFields now course = Some props"
  shows "\<exists>g e. props = [(js ''courseId'', course_id course), (js ''courseCode'', courseCode course),
                         (js ''courseName'', courseName course), (js ''generatedAt'', g),
                         (js ''expiresAt'', e)]
               \<and> toISOString (Some (now + 28800000)) = Some g
               \<and> toISOString (Some (now + 32400000)) = Some e
               \<and> parseISO g = Some (now + 28800000)
               \<and> parseISO e = Some (now + 32400000)"
proof -
  from assms obtain g e where g: "toISOString (getPhilippineTime now) = Some g"
    and e: "toISOString (date_plus (getPhilippineTime now) (60 * 60 * 1000)) = Some e"
    and p: "props = [(js ''courseId'', course_id course), (js ''courseCode'', courseCode course),
                         (js ''courseName'', courseName course), (js ''generatedAt'', g),
                         (js ''expiresAt'', e)]"
    by (auto simp: qrFields_def Let_def split: option.splits)
  from toISOString_eq_Some [OF g] obtain p1 where p1: "getPhilippineTime now = Some p1" by blast
  from toISOString_eq_Some [OF e] obtain p2 where
    p2: "date_plus (getPhilippineTime now) (60 * 60 * 1000) = Some p2" by blast
  from getPhilippineTime_Some [OF p1]
  have v1: "p1 = now + 28800000" "\<bar>now + 28800000\<bar> \<le> 8640000000000000"
    by blast+
  from date_plus_Some [OF p2] p1 v1(1)
  have v2: "p2 = now + 32400000" "\<bar>now + 32400000\<bar> \<le> 8640000000000000"
    by auto
  have g': "toISOString (Some (now + 28800000)) = Some g" using g p1 v1 by simp
  have e': "toISOString (Some (now + 32400000)) = Some e" using e p2 v2 by simp
  have "parseISO g = Some (now + 28800000)"
    using parseISO_toISOString [OF _ g'] v1 by simp
  moreover have "parseISO e = Some (now + 32400000)"
    using parseISO_toISOString [OF _ e'] v2 by simp
  ultimately show ?thesis using p g' e' by blast
qed

lemma qrFields_defined:
  "(qrFields now course \<noteq> None) =
     (\<bar>now + 28800000\<bar> \<le> 8640000000000000 \<and> \<bar>now + 32400000\<bar> \<le> 8640000000000000)"
proof (cases "\<bar>now + 28800000\<bar> \<le> 8640000000000000")
  case True
  then have p: "getPhilippineTime now = Some (now + 28800000)"
    by (simp add: getPhilippineTime_def TimeClip_def)
  show ?thesis
  proof (cases "\<bar>now + 32400000\<bar> \<le> 8640000000000000")
    case t: True
    then have "date_plus (getPhilippineTime now) (60 * 60 * 1000) = Some (now + 32400000)"
      by (simp add: p date_plus_def TimeClip_def)
    then show ?thesis
      using True t toISOString_Some [of "now + 28800000"] toISOString_Some [of "now + 32400000"]
      by (auto simp: qrFields_def Let_def p split: option.splits)
  next
    case f: False
    then have "date_plus (getPhilippineTime now) (60 * 60 * 1000) = None"
      by (simp add: p date_plus_def TimeClip_def)
    then show ?thesis
      using f by (auto simp: qrFields_def Let_def split: option.splits)
  qed
next
  case False
  then have "getPhilippineTime now = None"
    by (simp add: getPhilippineTime_def TimeClip_def)
  then show ?thesis
    using False by (simp add: qrFields_def Let_def)
qed

lemma generateQRData_parse:
  assumes "generateQRData now course = Some data"
  shows "\<exists>g e. JSON_parse data =
                  Some (JObj [(js ''courseId'', JStr (course_id course)),
                              (js ''courseCode'', JStr (courseCode course)),
                              (js ''courseName'', JStr (courseName course)),
                              (js ''generatedAt'', JStr g),
                              (js ''expiresAt'', JStr e)])
               \<and> parseISO g = Some (now + 28800000)
               \<and> parseISO e = Some (now + 32400000)
               \<and> toISOString (Some (now + 28800000)) = Some g
               \<and> toISOString (Some (now + 32400000)) = Some e"
proof -
  from assms obtain props where p: "qrFields now course = Some props"
    and d: "data = JSON_stringify props"
    by (auto simp: generateQRData_def)
  from qrFields_Some [OF p] obtain g e where
    s: "props = [(js ''courseId'', course_id course), (js ''courseCode'', courseCode course),
                 (js ''courseName'', courseName course), (js ''generatedAt'', g),
                 (js ''expiresAt'', e)]"
    and r: "toISOString (Some (now + 28800000)) = Some g"
      "toISOString (Some (now + 32400000)) = Some e"
      "parseISO g = Some (now + 28800000)" "parseISO e = Some (now + 32400000)"
    by blast
  have "distinct (map fst props)" using qr_keys_distinct by (simp add: s)
  from JSON_parse_stringify [OF this] have
    "JSON_parse data = Some (JObj [(js ''courseId'', JStr (course_id course)),
                              (js ''courseCode'', JStr (courseCode course)),
                              (js ''courseName'', JStr (courseName course)),
                              (js ''generatedAt'', JStr g),
                              (js ''expiresAt'', JStr e)])"
    by (simp add: d s)
  with r show ?thesis by blast
qed

lemma qr_lookup:
  "map_of [(js ''courseId'', a), (js ''courseCode'', b), (js ''courseName'', c),
           (js ''generatedAt'', g), (js ''expiresAt'', e)] (js ''courseId'') = Some a"
  "map_of [(js ''courseId'', a), (js ''courseCode'', b), (js ''courseName'', c),
           (js ''generatedAt'', g), (js ''expiresAt'', e)] (js ''generatedAt'') = Some g"
  "map_of [(js ''courseId'', a), (js ''courseCode'', b), (js ''courseName'', c),
           (js ''generatedAt'', g), (js ''expiresAt'', e)] (js ''expiresAt'') = Some e"
  by (simp_all add: js_def)

lemma toISOString_Z: "toISOString d = Some s \<Longrightarrow> last s = 0x5A"
  by (cases d) (auto simp: toISOString_def Let_def)

lemma Date_parse_ISO: "parseISO s = Some t \<Longrightarrow> Date_parse eng s = Some t"
  by (simp add: Date_parse_def)

lemma minted_cs101_eval: "generateQRData 1747549200000 cs101 = Some minted_cs101"
  by code_simp

lemma minted_cs101_parse:
  "JSON_parse minted_cs101 =
     Some (JObj [(js ''courseId'', JStr (js ''c1'')), (js ''courseCode'', JStr (js ''CS101'')),
                 (js ''courseName'', JStr (js ''Intro'')),
                 (js ''generatedAt'', JStr (js ''2025-05-18T14:20:00.000Z'')),
                 (js ''expiresAt'', JStr (js ''2025-05-18T15:20:00.000Z''))])"
  by code_simp


section \<open>The scan after its first gates\<close>

lemma parseISO_nonempty: "parseISO s = Some t \<Longrightarrow> s \<noteq> []"
  by (auto simp: parseISO_def)

lemma scan_with_expiry:
  assumes "JSON_parse data = Some (JObj ms)"
    and "map_of ms (js ''expiresAt'') = Some (JStr s)"
    and "s \<noteq> []"
    and "Date_parse eng s = Some e"
  shows "(map_of ms (js ''courseId'') = Some (JStr (course_id sc))
            \<and> isEnrolled courses uid (JStr (course_id sc))
          \<longrightarrow> handleBarCodeScanned eng courses uid (Some sc) now data =
                (if e < now then Inl Expired
                 else Inr \<lparr> body_qrData = data, body_studentId = uid,
                            body_intendedCourseId = course_id sc,
                            body_courseCode = courseCode sc \<rparr>))
       \<and> (handleBarCodeScanned eng courses uid (Some sc) now data = Inl Expired \<longrightarrow> e < now)
       \<and> (e < now \<longrightarrow> isl (handleBarCodeScanned eng courses uid (Some sc) now data))"
  using assms
  by (auto simp: handleBarCodeScanned_def split: option.splits)


section \<open>Live sessions over a sequence of events\<close>














section \<open>The claims\<close>

subsection \<open>The generator\<close>




text \<open>
  C6. \<open>generateQRData\<close> returns a payload exactly when the shifted clock and the expiry
  are time values a Date can hold; the payload then carries \<open>generatedAt\<close> (the spec's
  issuedAt) with the time value of the device clock plus eight hours, and \<open>expiresAt\<close> with
  that plus 3,600,000 ms, so \<open>expiresAt\<close> is later than \<open>generatedAt\<close>.
\<close>

theorem minted_window:
  "(generateQRData now course \<noteq> None) =
      (\<bar>now + 28800000\<bar> \<le> 8640000000000000 \<and> \<bar>now + 32400000\<bar> \<le> 8640000000000000)
   \<and> (generateQRData now course = Some data \<longrightarrow>
        (\<exists>g e. JSON_parse data =
                  Some (JObj [(js ''courseId'', JStr (course_id course)),
                              (js ''courseCode'', JStr (courseCode course)),
                              (js ''courseName'', JStr (courseName course)),
                              (js ''generatedAt'', JStr g),
                              (js ''expiresAt'', JStr e)])
               \<and> Date_parse eng g = Some (now + 8 * 60 * 60 * 1000)
               \<and> Date_parse eng e = Some (now + 8 * 60 * 60 * 1000 + 3600000)
               \<and> date_gt (Date_parse eng e) (Date_parse eng g)))"
proof -
  have 1: "(generateQRData now course \<noteq> None) =
      (\<bar>now + 28800000\<bar> \<le> 8640000000000000 \<and> \<bar>now + 32400000\<bar> \<le> 8640000000000000)"
    using qrFields_defined [of now course] by (simp add: generateQRData_def)
  have 2: "\<exists>g e. JSON_parse data =
                  Some (JObj [(js ''courseId'', JStr (course_id course)),
                              (js ''courseCode'', JStr (courseCode course)),
                              (js ''courseName'', JStr (courseName course)),
                              (js ''generatedAt'', JStr g),
                              (js ''expiresAt'', JStr e)])
               \<and> Date_parse eng g = Some (now + 8 * 60 * 60 * 1000)
               \<and> Date_parse eng e = Some (now + 8 * 60 * 60 * 1000 + 3600000)
               \<and> date_gt (Date_parse eng e) (Date_parse eng g)"
    if g: "generateQRData now course = Some data"
  proof -
    from generateQRData_parse [OF g] obtain g e where
      p: "JSON_parse data = Some (JObj [(js ''courseId'', JStr (course_id course)),
                              (js ''courseCode'', JStr (courseCode course)),
                              (js ''courseName'', JStr (courseName course)),
                              (js ''generatedAt'', JStr g),
                              (js ''expiresAt'', JStr e)])"
      and t: "parseISO g = Some (now + 28800000)" "parseISO e = Some (now + 32400000)"
      by blast
    have "Date_parse eng g = Some (now + 8 * 60 * 60 * 1000)"
      "Date_parse eng e = Some (now + 8 * 60 * 60 * 1000 + 3600000)"
      using t by (simp_all add: Date_parse_ISO)
    with p show ?thesis by auto
  qed
  from 1 2 show ?thesis by blast
qed

theorem minted_window_witness:
  "generateQRData 1747549200000 cs101 = Some minted_cs101
   \<and> Date_parse plain_engine (js ''2025-05-18T14:20:00.000Z'') = Some (1747549200000 + 28800000)
   \<and> Date_parse plain_engine (js ''2025-05-18T15:20:00.000Z'')
        = Some (1747549200000 + 28800000 + 3600000)"
  using minted_window [of 1747549200000 cs101 minted_cs101 plain_engine]
    minted_cs101_eval minted_cs101_parse
  by auto

subsection \<open>The wire format\<close>

text \<open>
  C7. Parsing the stringified five-field payload gives back the five fields, whatever
  strings they hold; and the string \<open>toISOString\<close> makes of any time value a Date can hold
  is read back by \<open>new Date\<close> as that time value, to the millisecond. The fourth field is
  named \<open>generatedAt\<close> in the code.
\<close>

theorem wire_roundtrip:
  "JSON_parse (JSON_stringify [(js ''courseId'', a), (js ''courseCode'', b),
                               (js ''courseName'', c), (js ''generatedAt'', g),
                               (js ''expiresAt'', e)])
     = Some (JObj [(js ''courseId'', JStr a), (js ''courseCode'', JStr b),
                   (js ''courseName'', JStr c), (js ''generatedAt'', JStr g),
                   (js ''expiresAt'', JStr e)])
   \<and> (\<bar>t\<bar> \<le> 8640000000000000 \<longrightarrow>
        (\<exists>s. toISOString (Some t) = Some s \<and> Date_parse eng s = Some t))"
proof -
  have "distinct (map fst [(js ''courseId'', a), (js ''courseCode'', b),
                               (js ''courseName'', c), (js ''generatedAt'', g),
                               (js ''expiresAt'', e)])"
    using qr_keys_distinct by simp
  from JSON_parse_stringify [OF this] have 1:
    "JSON_parse (JSON_stringify [(js ''courseId'', a), (js ''courseCode'', b),
                               (js ''courseName'', c), (js ''generatedAt'', g),
                               (js ''expiresAt'', e)])
     = Some (JObj [(js ''courseId'', JStr a), (js ''courseCode'', JStr b),
                   (js ''courseName'', JStr c), (js ''generatedAt'', JStr g),
                   (js ''expiresAt'', JStr e)])"
    by simp
  have 2: "\<exists>s. toISOString (Some t) = Some s \<and> Date_parse eng s = Some t"
    if b: "\<bar>t\<bar> \<le> 8640000000000000"
  proof -
    obtain s where s: "toISOString (Some t) = Some s"
      using toISOString_Some [of t] by auto
    from parseISO_toISOString [OF b s] have "Date_parse eng s = Some t"
      by (rule Date_parse_ISO)
    with s show ?thesis by blast
  qed
  from 1 2 show ?thesis by blast
qed

theorem wire_roundtrip_witness:
  "JSON_parse (JSON_stringify [(js ''courseId'', js ''c1''), (js ''courseCode'', js ''CS101''),
                               (js ''courseName'', js ''Intro''),
                               (js ''generatedAt'', js ''2025-05-18T14:20:00.000Z''),
                               (js ''expiresAt'', js ''2025-05-18T15:20:00.000Z'')])
     = Some (JObj [(js ''courseId'', JStr (js ''c1'')), (js ''courseCode'', JStr (js ''CS101'')),
                   (js ''courseName'', JStr (js ''Intro'')),
                   (js ''generatedAt'', JStr (js ''2025-05-18T14:20:00.000Z'')),
                   (js ''expiresAt'', JStr (js ''2025-05-18T15:20:00.000Z''))])
   \<and> toISOString (Some 1747578077727) = Some (js ''2025-05-18T14:21:17.727Z'')
   \<and> Date_parse plain_engine (js ''2025-05-18T14:21:17.727Z'') = Some 1747578077727"
proof -
  have h: "toISOString (Some 1747578077727) = Some (js ''2025-05-18T14:21:17.727Z'')"
    by code_simp
  show ?thesis
    using wire_roundtrip [of "js ''c1''" "js ''CS101''" "js ''Intro''"
        "js ''2025-05-18T14:20:00.000Z''" "js ''2025-05-18T15:20:00.000Z''"
        1747578077727 plain_engine] h
    by auto
qed

subsection \<open>The validator\<close>

text \<open>
  C2. For a decoded token whose \<open>expiresAt\<close> is a timestamp with time value \<open>e\<close>, and
  every reading \<open>now\<close> of the clock: a token that passes the course and enrolment gates is
  rejected as Expired when \<open>now > e\<close> and is sent on when \<open>now \<le> e\<close>, the instant
  \<open>now = e\<close> included; no token is rejected as Expired unless \<open>now > e\<close>; and a token with
  \<open>now > e\<close> is always rejected.
\<close>

theorem expiry_gate:
  assumes "JSON_parse data = Some (JObj ms)"
    and "map_of ms (js ''expiresAt'') = Some (JStr s)"
    and "s \<noteq> []"
    and "Date_parse eng s = Some e"
  shows "(map_of ms (js ''courseId'') = Some (JStr (course_id sc))
            \<and> isEnrolled courses uid (JStr (course_id sc))
          \<longrightarrow> handleBarCodeScanned eng courses uid (Some sc) now data =
                (if e < now then Inl Expired
                 else Inr \<lparr> body_qrData = data, body_studentId = uid,
                            body_intendedCourseId = course_id sc,
                            body_courseCode = courseCode sc \<rparr>))
       \<and> (handleBarCodeScanned eng courses uid (Some sc) now data = Inl Expired \<longrightarrow> e < now)
       \<and> (e < now \<longrightarrow> isl (handleBarCodeScanned eng courses uid (Some sc) now data))"
proof -
  have truthy: "ToBoolean eng (JStr s)" using assms(3) by simp
  have expiry: "new_Date eng (JStr s) = Some e" using assms(4) by simp
  have field: "get_prop (JObj ms) (js ''expiresAt'') = Some (JStr s)"
    using assms(2) by simp
  show ?thesis
    using assms(1) truthy expiry field
    by (auto simp: handleBarCodeScanned_def split: option.splits)
qed

theorem expiry_gate_witness:
  \<open>handleBarCodeScanned plain_engine [cs101] (js ''s1'') (Some cs101) 1747578077727
      (js ''{"courseId":"c1","expiresAt":"2025-05-18T14:21:17.727Z"}'')
    = Inr \<lparr> body_qrData = js ''{"courseId":"c1","expiresAt":"2025-05-18T14:21:17.727Z"}'',
             body_studentId = js ''s1'', body_intendedCourseId = js ''c1'',
             body_courseCode = js ''CS101'' \<rparr>
   \<and> handleBarCodeScanned plain_engine [cs101] (js ''s1'') (Some cs101) 1747578077728
      (js ''{"courseId":"c1","expiresAt":"2025-05-18T14:21:17.727Z"}'')
    = Inl Expired\<close>
proof -
  have h1: \<open>JSON_parse (js ''{"courseId":"c1","expiresAt":"2025-05-18T14:21:17.727Z"}'')
              = Some (JObj [(js ''courseId'', JStr (js ''c1'')),
                            (js ''expiresAt'', JStr (js ''2025-05-18T14:21:17.727Z''))])\<close>
    by code_simp
  have h2: "map_of [(js ''courseId'', JStr (js ''c1'')),
                    (js ''expiresAt'', JStr (js ''2025-05-18T14:21:17.727Z''))] (js ''expiresAt'')
              = Some (JStr (js ''2025-05-18T14:21:17.727Z''))"
    by code_simp
  have h3: "js ''2025-05-18T14:21:17.727Z'' \<noteq> []"
    by (simp add: js_def)
  have h4: "Date_parse plain_engine (js ''2025-05-18T14:21:17.727Z'') = Some 1747578077727"
    by code_simp
  have h5: "map_of [(js ''courseId'', JStr (js ''c1'')),
                    (js ''expiresAt'', JStr (js ''2025-05-18T14:21:17.727Z''))] (js ''courseId'')
              = Some (JStr (course_id cs101))"
    by code_simp
  have h6: "isEnrolled [cs101] (js ''s1'') (JStr (course_id cs101))"
    by code_simp
  show ?thesis
    using expiry_gate [OF h1 h2 h3 h4, where sc = cs101 and courses = "[cs101]"
                         and uid = "js ''s1''" and now = 1747578077727]
      expiry_gate [OF h1 h2 h3 h4, where sc = cs101 and courses = "[cs101]"
                         and uid = "js ''s1''" and now = 1747578077728]
      h5 h6
    by (simp add: cs101_def)
qed

text \<open>
  C3. A well-formed token whose \<open>courseId\<close> is not the id of the course the student chose
  is rejected as WrongCourse, whatever its expiry and whoever is enrolled; so is every token
  minted by \<open>generateQRData\<close> for a course with another id.
\<close>

theorem course_binding:
  "(JSON_parse data = Some (JObj ms) \<and> map_of ms (js ''courseId'') \<noteq> Some (JStr (course_id sc))
      \<longrightarrow> handleBarCodeScanned eng courses uid (Some sc) now data = Inl WrongCourse)
   \<and> (generateQRData t a = Some data \<and> course_id a \<noteq> course_id sc
      \<longrightarrow> handleBarCodeScanned eng courses uid (Some sc) now data = Inl WrongCourse)"
proof -
  have 1: "handleBarCodeScanned eng courses uid (Some sc) now data = Inl WrongCourse"
    if "JSON_parse data = Some (JObj ms)" "map_of ms (js ''courseId'') \<noteq> Some (JStr (course_id sc))"
    for ms
    using that by (auto simp: handleBarCodeScanned_def split: option.splits)
  have 2: "handleBarCodeScanned eng courses uid (Some sc) now data = Inl WrongCourse"
    if g: "generateQRData t a = Some data" and n: "course_id a \<noteq> course_id sc"
  proof -
    from generateQRData_parse [OF g] obtain g e where
      p: "JSON_parse data = Some (JObj [(js ''courseId'', JStr (course_id a)),
                              (js ''courseCode'', JStr (courseCode a)),
                              (js ''courseName'', JStr (courseName a)),
                              (js ''generatedAt'', JStr g),
                              (js ''expiresAt'', JStr e)])"
      by blast
    show ?thesis
      by (rule 1 [OF p]) (use n in \<open>simp add: qr_lookup\<close>)
  qed
  from 1 2 show ?thesis by blast
qed

theorem course_binding_witness:
  \<open>handleBarCodeScanned plain_engine [] (js ''s9'') (Some cs101) 1747578077728
      (js ''{"courseId":"m2","expiresAt":"2025-05-18T14:21:17.727Z"}'') = Inl WrongCourse
   \<and> generateQRData 1747549200000 cs101 = Some minted_cs101
   \<and> handleBarCodeScanned plain_engine [cs101] (js ''s1'')
        (Some (cs101\<lparr> course_id := js ''m2'' \<rparr>)) 1747549200001 minted_cs101
       = Inl WrongCourse\<close>
proof -
  have h1: \<open>JSON_parse (js ''{"courseId":"m2","expiresAt":"2025-05-18T14:21:17.727Z"}'')
              = Some (JObj [(js ''courseId'', JStr (js ''m2'')),
                            (js ''expiresAt'', JStr (js ''2025-05-18T14:21:17.727Z''))])\<close>
    by code_simp
  have h2: "map_of [(js ''courseId'', JStr (js ''m2'')),
                    (js ''expiresAt'', JStr (js ''2025-05-18T14:21:17.727Z''))] (js ''courseId'')
              \<noteq> Some (JStr (course_id cs101))"
    by code_simp
  have h4: "course_id cs101 \<noteq> course_id (cs101\<lparr> course_id := js ''m2'' \<rparr>)"
    by code_simp
  show ?thesis
    using course_binding [where data = \<open>js ''{"courseId":"m2","expiresAt":"2025-05-18T14:21:17.727Z"}''\<close>
        and sc = cs101 and eng = plain_engine and courses = "[]" and uid = "js ''s9''"
        and now = 1747578077728, THEN conjunct1, rule_format, OF conjI, OF h1 h2]
      course_binding [where data = minted_cs101
        and sc = "cs101\<lparr> course_id := js ''m2'' \<rparr>" and eng = plain_engine
        and courses = "[cs101]" and uid = "js ''s1''" and now = 1747549200001
        and t = 1747549200000 and a = cs101, THEN conjunct2, rule_format, OF conjI,
        OF minted_cs101_eval h4]
      minted_cs101_eval
    by simp
qed

text \<open>
  C4. A well-formed token for the chosen course is rejected as NotEnrolled, and no scan is
  sent, when no entry of the student's course list with that id lists the student.
\<close>

theorem enrollment_gate:
  assumes "JSON_parse data = Some (JObj ms)"
    and "map_of ms (js ''courseId'') = Some (JStr (course_id sc))"
    and "\<forall>c \<in> set courses. course_id c = course_id sc \<longrightarrow>
           (case students c of None \<Rightarrow> True | Some ss \<Rightarrow> uid \<notin> set ss)"
  shows "handleBarCodeScanned eng courses uid (Some sc) now data = Inl NotEnrolled"
proof -
  have "\<not> isEnrolled courses uid (JStr (course_id sc))"
    using assms(3) by (auto simp: isEnrolled_def list_ex_iff split: option.splits)
  then show ?thesis
    using assms(1,2) by (simp add: handleBarCodeScanned_def)
qed

theorem enrollment_gate_witness:
  \<open>handleBarCodeScanned plain_engine [cs101] (js ''s9'') (Some cs101) 1747578000000
      (js ''{"courseId":"c1","expiresAt":"2025-05-18T14:21:17.727Z"}'') = Inl NotEnrolled\<close>
proof -
  have h1: \<open>JSON_parse (js ''{"courseId":"c1","expiresAt":"2025-05-18T14:21:17.727Z"}'')
              = Some (JObj [(js ''courseId'', JStr (js ''c1'')),
                            (js ''expiresAt'', JStr (js ''2025-05-18T14:21:17.727Z''))])\<close>
    by code_simp
  have h2: "map_of [(js ''courseId'', JStr (js ''c1'')),
                    (js ''expiresAt'', JStr (js ''2025-05-18T14:21:17.727Z''))] (js ''courseId'')
              = Some (JStr (course_id cs101))"
    by code_simp
  have h3: "\<forall>c \<in> set [cs101]. course_id c = course_id cs101 \<longrightarrow>
              (case students c of None \<Rightarrow> True | Some ss \<Rightarrow> js ''s9'' \<notin> set ss)"
    by (simp add: cs101_def js_def)
  show ?thesis
    by (rule enrollment_gate [OF h1 h2 h3])
qed




text \<open>
  C10. A token minted when the lecturer's device clock reads \<open>t\<close> carries \<open>generatedAt\<close> and
  \<open>expiresAt\<close> with the time values \<open>t\<close> plus eight and plus nine hours, written with the
  \<open>Z\<close> of UTC; the student's handler compares \<open>expiresAt\<close> with its own unshifted clock, so
  an enrolled student's scan for the course is sent on until nine hours after \<open>t\<close>, and
  rejected as Expired after that.
\<close>

theorem nine_hour_window:
  assumes "generateQRData t course = Some data"
    and "course_id sc = course_id course"
    and "isEnrolled courses uid (JStr (course_id sc))"
  shows "(\<exists>ms g e. JSON_parse data = Some (JObj ms)
            \<and> map_of ms (js ''generatedAt'') = Some (JStr g)
            \<and> map_of ms (js ''expiresAt'') = Some (JStr e)
            \<and> Date_parse eng g = Some (t + 8 * 3600000) \<and> last g = 0x5A
            \<and> Date_parse eng e = Some (t + 9 * 3600000) \<and> last e = 0x5A)
       \<and> handleBarCodeScanned eng courses uid (Some sc) now data =
           (if t + 9 * 3600000 < now then Inl Expired
            else Inr \<lparr> body_qrData = data, body_studentId = uid,
                       body_intendedCourseId = course_id sc,
                       body_courseCode = courseCode sc \<rparr>)"
proof -
  from generateQRData_parse [OF assms(1)] obtain g e where
    p: "JSON_parse data = Some (JObj [(js ''courseId'', JStr (course_id course)),
                              (js ''courseCode'', JStr (courseCode course)),
                              (js ''courseName'', JStr (courseName course)),
                              (js ''generatedAt'', JStr g),
                              (js ''expiresAt'', JStr e)])"
    and t: "parseISO g = Some (t + 28800000)" "parseISO e = Some (t + 32400000)"
    and i: "toISOString (Some (t + 28800000)) = Some g"
      "toISOString (Some (t + 32400000)) = Some e"
    by blast
  let ?ms = "[(js ''courseId'', JStr (course_id course)),
                              (js ''courseCode'', JStr (courseCode course)),
                              (js ''courseName'', JStr (courseName course)),
                              (js ''generatedAt'', JStr g),
                              (js ''expiresAt'', JStr e)]"
  have d: "Date_parse eng g = Some (t + 8 * 3600000)" "Date_parse eng e = Some (t + 9 * 3600000)"
    using t by (simp_all add: Date_parse_ISO)
  have d': "Date_parse eng e = Some (t + 32400000)"
    using t by (simp add: Date_parse_ISO)
  have z: "last g = 0x5A" "last e = 0x5A"
    using i by (simp_all add: toISOString_Z)
  have l: "map_of ?ms (js ''generatedAt'') = Some (JStr g)"
    "map_of ?ms (js ''expiresAt'') = Some (JStr e)"
    "map_of ?ms (js ''courseId'') = Some (JStr (course_id sc))"
    unfolding assms(2) by (rule qr_lookup)+
  have 1: "\<exists>ms g e. JSON_parse data = Some (JObj ms)
            \<and> map_of ms (js ''generatedAt'') = Some (JStr g)
            \<and> map_of ms (js ''expiresAt'') = Some (JStr e)
            \<and> Date_parse eng g = Some (t + 8 * 3600000) \<and> last g = 0x5A
            \<and> Date_parse eng e = Some (t + 9 * 3600000) \<and> last e = 0x5A"
    using p l d z by blast
  have "handleBarCodeScanned eng courses uid (Some sc) now data =
           (if t + 32400000 < now then Inl Expired
            else Inr \<lparr> body_qrData = data, body_studentId = uid,
                       body_intendedCourseId = course_id sc,
                       body_courseCode = courseCode sc \<rparr>)"
    using scan_with_expiry [OF p l(2) parseISO_nonempty [OF t(2)] d', of sc courses uid now]
      l(3) assms(3)
    by blast
  then have 2: "handleBarCodeScanned eng courses uid (Some sc) now data =
           (if t + 9 * 3600000 < now then Inl Expired
            else Inr \<lparr> body_qrData = data, body_studentId = uid,
                       body_intendedCourseId = course_id sc,
                       body_courseCode = courseCode sc \<rparr>)"
    by simp
  from 1 2 show ?thesis by blast
qed

theorem nine_hour_window_witness:
  "generateQRData 1747549200000 cs101 = Some minted_cs101
   \<and> handleBarCodeScanned plain_engine [cs101] (js ''s1'') (Some cs101)
        (1747549200000 + 3600001) minted_cs101
       = Inr \<lparr> body_qrData = minted_cs101, body_studentId = js ''s1'',
                body_intendedCourseId = js ''c1'', body_courseCode = js ''CS101'' \<rparr>
   \<and> handleBarCodeScanned plain_engine [cs101] (js ''s1'') (Some cs101)
        (1747549200000 + 32400000) minted_cs101
       = Inr \<lparr> body_qrData = minted_cs101, body_studentId = js ''s1'',
                body_intendedCourseId = js ''c1'', body_courseCode = js ''CS101'' \<rparr>
   \<and> handleBarCodeScanned plain_engine [cs101] (js ''s1'') (Some cs101)
        (1747549200000 + 32400001) minted_cs101
       = Inl Expired"
proof -
  have h: "isEnrolled [cs101] (js ''s1'') (JStr (course_id cs101))" by code_simp
  note w = nine_hour_window [OF minted_cs101_eval refl h, where eng = plain_engine]
  show ?thesis
    using w [of "1747549200000 + 3600001"] w [of "1747549200000 + 32400000"]
      w [of "1747549200000 + 32400001"] minted_cs101_eval
    by (simp add: cs101_def)
qed

subsection \<open>The poller\<close>

text \<open>
  C8 does not hold of the code. At 14:20 the session generated at 14:10 holds one scan made
  at 14:19: the tick sets the badge to 0, because it compares the session's \<open>generatedAt\<close>
  with the clock, while one scan has its \<open>scannedAt\<close> within the last five minutes.
\<close>

theorem recent_scans_by_session:
  "handleNewScan plain_engine 1747549200000 (Ok [session_1410]) 1747549200100 idle_card
     = (True, idle_card\<lparr> newScans := 0, lastCheckTime := 1747549200000 \<rparr>)
   \<and> countRecentScans_spec plain_engine 1747549200100 (5 * 60 * 1000) [session_1410] = 1"
  by code_simp

text \<open>
  C9, as amended. A tick less than 3000 ms after the last recorded check fetches nothing
  and changes nothing. Any other tick fetches; when the response is ok it sets the badge to
  the count and records the tick's time as the last check; when the fetch throws or the
  response is not ok it changes nothing.
\<close>

theorem poller_tick:
  "(now - lastCheckTime st < 3000 \<longrightarrow> handleNewScan eng now resp later st = (False, st))
   \<and> (\<not> now - lastCheckTime st < 3000 \<longrightarrow>
        fst (handleNewScan eng now resp later st)
        \<and> (resp = Ok records \<longrightarrow>
             snd (handleNewScan eng now resp later st)
               = st\<lparr> newScans := recentScans eng later records, lastCheckTime := now \<rparr>)
        \<and> (resp = Threw \<or> resp = NotOk \<longrightarrow> snd (handleNewScan eng now resp later st) = st))"
  by (auto simp: handleNewScan_def split: response.splits)

theorem poller_tick_witness:
  "handleNewScan plain_engine 1747549192999 (Ok [session_1420]) 1747549193100 idle_card
     = (False, idle_card)
   \<and> handleNewScan plain_engine 1747549260000 (Ok [session_1420]) 1747549260100 idle_card
       = (True, idle_card\<lparr> newScans := 0, lastCheckTime := 1747549260000 \<rparr>)
   \<and> snd (handleNewScan plain_engine 1747549260000 Threw 1747549260100 idle_card) = idle_card"
proof -
  have h1: "1747549192999 - lastCheckTime idle_card < 3000" by code_simp
  have h2: "\<not> 1747549260000 - lastCheckTime idle_card < 3000" by code_simp
  have h3: "recentScans plain_engine 1747549260100 [session_1420] = 0" by code_simp
  show ?thesis
    using poller_tick [where now = 1747549192999 and st = idle_card and eng = plain_engine
        and resp = "Ok [session_1420]" and records = "[session_1420]" and later = 1747549193100]
      poller_tick [where now = 1747549260000 and st = idle_card and eng = plain_engine
        and resp = "Ok [session_1420]" and records = "[session_1420]" and later = 1747549260100]
      poller_tick [where now = 1747549260000 and st = idle_card and eng = plain_engine
        and resp = Threw and records = "[]" and later = 1747549260100]
      h1 h2 h3
    by (simp add: prod_eq_iff)
qed

text \<open>
  C9 as stated fails: a tick a minute after the last check, answered with a response that
  is not ok, has fetched and leaves the badge and the last check time as they were.
\<close>

theorem poller_tick_counterexample:
  "\<not> 1747549260000 - lastCheckTime idle_card < 3000
   \<and> handleNewScan plain_engine 1747549260000 NotOk 1747549260100 idle_card = (True, idle_card)
   \<and> lastCheckTime idle_card \<noteq> 1747549260000"
  by code_simp

end
